theory Spec2Isabelle
  imports Complex_Main "HOL-Library.Word"
begin

unbundle bit_operations_syntax

section \<open>JavaScript values\<close>

text \<open>
  The adapter \<^verbatim>\<open>modules/fanAdapter.js\<close> is dynamically typed: a bid request, an auction
  context, a server response and a winning bid are arbitrary JavaScript values. They are
  modelled as trees. An object is the list of its own properties in insertion order; a
  number is the rational value of a finite double (\<^verbatim>\<open>NaN\<close> only arises as the result
  \<open>None\<close> of a conversion, the infinities are not represented); a string is the list of
  its code units.
\<close>

datatype jsval =
    JUndefined
  | JNull
  | JBool bool
  | JNum rat
  | JStr string
  | JArr "jsval list"
  | JObj "(string \<times> jsval) list"

text \<open>The only exception the adapter's own statements can raise.\<close>

datatype error = TypeError

text \<open>\<^verbatim>\<open>ToBoolean\<close>: the test behind \<^verbatim>\<open>if (x)\<close>, \<^verbatim>\<open>!x\<close>, \<^verbatim>\<open>x || y\<close>, \<^verbatim>\<open>x && y\<close>, \<^verbatim>\<open>x ? a : b\<close>.\<close>

fun truthy :: "jsval \<Rightarrow> bool" where
  "truthy JUndefined = False"
| "truthy JNull = False"
| "truthy (JBool b) = b"
| "truthy (JNum n) = (n \<noteq> 0)"
| "truthy (JStr s) = (s \<noteq> [])"
| "truthy (JArr xs) = True"
| "truthy (JObj fs) = True"

definition or_js :: "jsval \<Rightarrow> jsval \<Rightarrow> jsval" where
  "or_js a b = (if truthy a then a else b)"

definition and_js :: "jsval \<Rightarrow> jsval \<Rightarrow> jsval" where
  "and_js a b = (if truthy a then b else a)"

fun nullish :: "jsval \<Rightarrow> bool" where
  "nullish JUndefined = True"
| "nullish JNull = True"
| "nullish v = False"

definition lookup :: "(string \<times> jsval) list \<Rightarrow> string \<Rightarrow> jsval" where
  "lookup fs k = (case map_of fs k of None \<Rightarrow> JUndefined | Some v \<Rightarrow> v)"

text \<open>
  Reading the property \<open>k\<close> of a value that is neither \<^verbatim>\<open>undefined\<close> nor \<^verbatim>\<open>null\<close>. The
  names the adapter reads are data names (\<^verbatim>\<open>params\<close>, \<^verbatim>\<open>id\<close>, \<^verbatim>\<open>trackers\<close>, ...) and
  \<^verbatim>\<open>length\<close>; none of them is inherited from a built-in prototype, so a value without the
  own property yields \<^verbatim>\<open>undefined\<close>.
\<close>

fun read_prop :: "jsval \<Rightarrow> string \<Rightarrow> jsval" where
  "read_prop (JObj fs) k = lookup fs k"
| "read_prop (JArr xs) k = (if k = ''length'' then JNum (of_nat (length xs)) else JUndefined)"
| "read_prop (JStr s) k = (if k = ''length'' then JNum (of_nat (length s)) else JUndefined)"
| "read_prop v k = JUndefined"

text \<open>The member expression \<^verbatim>\<open>v.k\<close>: a \<^verbatim>\<open>TypeError\<close> on \<^verbatim>\<open>undefined\<close> and \<^verbatim>\<open>null\<close>.\<close>

definition getprop :: "jsval \<Rightarrow> string \<Rightarrow> error + jsval" where
  "getprop v k = (if nullish v then Inl TypeError else Inr (read_prop v k))"

text \<open>The chain \<^verbatim>\<open>v.k1.k2...\<close>, read left to right.\<close>

fun getpath :: "jsval \<Rightarrow> string list \<Rightarrow> error + jsval" where
  "getpath v [] = Inr v"
| "getpath v (k # ks) = (case getprop v k of Inl e \<Rightarrow> Inl e | Inr w \<Rightarrow> getpath w ks)"

text \<open>The decimal numeral of an array index, the property key of \<^verbatim>\<open>v[i]\<close>.\<close>

definition digit_char :: "nat \<Rightarrow> char" where
  "digit_char d = ''0123456789'' ! d"

fun dec_string :: "nat \<Rightarrow> string" where
  "dec_string n =
     (if n < 10 then [digit_char n] else dec_string (n div 10) @ [digit_char (n mod 10)])"

declare dec_string.simps [simp del]

text \<open>The indexed read \<^verbatim>\<open>v[i]\<close> for a non-negative integer \<open>i\<close> and a value \<open>v\<close> that is
  neither \<^verbatim>\<open>undefined\<close> nor \<^verbatim>\<open>null\<close>.\<close>

fun getidx :: "jsval \<Rightarrow> nat \<Rightarrow> jsval" where
  "getidx (JArr xs) i = (if i < length xs then xs ! i else JUndefined)"
| "getidx (JStr s) i = (if i < length s then JStr [s ! i] else JUndefined)"
| "getidx (JObj fs) i = lookup fs (dec_string i)"
| "getidx v i = JUndefined"

text \<open>
  An object literal \<^verbatim>\<open>{k1: e1, k2: e2, ...}\<close>: the initialisers are evaluated in source
  order, and the first one that throws aborts the literal.
\<close>

fun obj_fields :: "(string \<times> (error + jsval)) list \<Rightarrow> error + (string \<times> jsval) list" where
  "obj_fields [] = Inr []"
| "obj_fields ((k, r) # rest) =
     (case r of
        Inl e \<Rightarrow> Inl e
      | Inr v \<Rightarrow> (case obj_fields rest of Inl e \<Rightarrow> Inl e | Inr fs \<Rightarrow> Inr ((k, v) # fs)))"

definition obj_literal :: "(string \<times> (error + jsval)) list \<Rightarrow> error + jsval" where
  "obj_literal inits = (case obj_fields inits of Inl e \<Rightarrow> Inl e | Inr fs \<Rightarrow> Inr (JObj fs))"

text \<open>
  The assignment \<^verbatim>\<open>o.k = v\<close> on an object held by value: an existing property keeps its
  place, a new one is appended.
\<close>

fun upd_field :: "(string \<times> jsval) list \<Rightarrow> string \<Rightarrow> jsval \<Rightarrow> (string \<times> jsval) list" where
  "upd_field [] k v = [(k, v)]"
| "upd_field ((k', v') # fs) k v =
     (if k' = k then (k, v) # fs else (k', v') # upd_field fs k v)"

subsection \<open>Conversions of the engine\<close>

text \<open>
  Two conversions depend on the double-precision number format, which is not modelled:
  printing a number and reading a number from a string. They are parameters of the
  model. \<open>StringToNumber\<close> returns \<open>None\<close> for \<^verbatim>\<open>NaN\<close>.
\<close>

record engine =
  NumberToString :: "rat \<Rightarrow> string"
  StringToNumber :: "string \<Rightarrow> rat option"

fun join_comma :: "string list \<Rightarrow> string" where
  "join_comma [] = []"
| "join_comma [s] = s"
| "join_comma (s # t # ss) = s @ '','' @ join_comma (t # ss)"

text \<open>
  \<^verbatim>\<open>ToString\<close>, which \<^verbatim>\<open>'Bearer ' + v\<close> applies to \<open>v\<close>. An object or array is first
  converted to a primitive: \<^verbatim>\<open>ToPrimitive\<close> tries the methods \<^verbatim>\<open>valueOf\<close> and
  \<^verbatim>\<open>toString\<close>, skips one that is not callable or returns an object, and throws a
  \<^verbatim>\<open>TypeError\<close> when none gives a primitive. The inherited \<^verbatim>\<open>valueOf\<close> returns the object
  itself. No property of a value of the tree model is callable, so an object with an own
  property \<^verbatim>\<open>toString\<close> (which hides the inherited method) cannot be converted, whatever
  the order of the two methods; every other object prints as \<^verbatim>\<open>[object Object]\<close>. An
  array prints as \<^verbatim>\<open>join(',')\<close>, which converts the elements from left to right and
  prints \<^verbatim>\<open>undefined\<close> and \<^verbatim>\<open>null\<close> elements as the empty string.
\<close>

fun ToString :: "engine \<Rightarrow> jsval \<Rightarrow> error + string"
  and ToString_elems :: "engine \<Rightarrow> jsval list \<Rightarrow> error + string list" where
  "ToString eng JUndefined = Inr ''undefined''"
| "ToString eng JNull = Inr ''null''"
| "ToString eng (JBool b) = Inr (if b then ''true'' else ''false'')"
| "ToString eng (JNum n) = Inr (NumberToString eng n)"
| "ToString eng (JStr s) = Inr s"
| "ToString eng (JArr xs) =
     (case ToString_elems eng xs of Inl e \<Rightarrow> Inl e | Inr ss \<Rightarrow> Inr (join_comma ss))"
| "ToString eng (JObj fs) =
     (if ''toString'' \<in> set (map fst fs) then Inl TypeError else Inr ''[object Object]'')"
| "ToString_elems eng [] = Inr []"
| "ToString_elems eng (x # xs) =
     (case (if nullish x then Inr [] else ToString eng x) of
        Inl e \<Rightarrow> Inl e
      | Inr s \<Rightarrow> (case ToString_elems eng xs of Inl e \<Rightarrow> Inl e | Inr ss \<Rightarrow> Inr (s # ss)))"

text \<open>\<^verbatim>\<open>ToNumber\<close>, with \<open>None\<close> for \<^verbatim>\<open>NaN\<close>; arrays and objects are converted to a
  primitive first, which is their string or a \<^verbatim>\<open>TypeError\<close>.\<close>

fun ToNumber :: "engine \<Rightarrow> jsval \<Rightarrow> error + rat option" where
  "ToNumber eng JUndefined = Inr None"
| "ToNumber eng JNull = Inr (Some 0)"
| "ToNumber eng (JBool b) = Inr (Some (if b then 1 else 0))"
| "ToNumber eng (JNum n) = Inr (Some n)"
| "ToNumber eng (JStr s) = Inr (StringToNumber eng s)"
| "ToNumber eng (JArr xs) =
     (case ToString eng (JArr xs) of Inl e \<Rightarrow> Inl e | Inr s \<Rightarrow> Inr (StringToNumber eng s))"
| "ToNumber eng (JObj fs) =
     (case ToString eng (JObj fs) of Inl e \<Rightarrow> Inl e | Inr s \<Rightarrow> Inr (StringToNumber eng s))"

text \<open>\<^verbatim>\<open>v == 0\<close>: \<^verbatim>\<open>undefined\<close> and \<^verbatim>\<open>null\<close> equal no number, every other value is
  converted to a number first, and the conversion may throw.\<close>

definition loose_eq_zero :: "engine \<Rightarrow> jsval \<Rightarrow> error + bool" where
  "loose_eq_zero eng v =
     (if nullish v then Inr False
      else (case ToNumber eng v of Inl e \<Rightarrow> Inl e | Inr r \<Rightarrow> Inr (r = Some 0)))"

text \<open>\<^verbatim>\<open>v > 0\<close> and \<^verbatim>\<open>i < v\<close> for a number \<open>i\<close>: false when \<open>v\<close> converts to \<^verbatim>\<open>NaN\<close>.\<close>

definition gt_zero :: "engine \<Rightarrow> jsval \<Rightarrow> error + bool" where
  "gt_zero eng v =
     (case ToNumber eng v of
        Inl e \<Rightarrow> Inl e
      | Inr None \<Rightarrow> Inr False
      | Inr (Some r) \<Rightarrow> Inr (0 < r))"

definition num_lt :: "engine \<Rightarrow> nat \<Rightarrow> jsval \<Rightarrow> error + bool" where
  "num_lt eng i v =
     (case ToNumber eng v of
        Inl e \<Rightarrow> Inl e
      | Inr None \<Rightarrow> Inr False
      | Inr (Some r) \<Rightarrow> Inr (of_nat i < r))"

subsection \<open>JSON\<close>

text \<open>
  \<^verbatim>\<open>JSON.stringify\<close> produces a text. The text is represented by the document it
  denotes: its concrete characters (spacing, escapes, the digits of a number) play no
  role in the adapter. A property whose value is \<^verbatim>\<open>undefined\<close> is left out, an
  \<^verbatim>\<open>undefined\<close> array element is written \<^verbatim>\<open>null\<close>, and \<^verbatim>\<open>JSON.stringify(undefined)\<close> is
  \<^verbatim>\<open>undefined\<close> (\<open>None\<close>).
\<close>

datatype json =
    JsonNull
  | JsonBool bool
  | JsonNum rat
  | JsonStr string
  | JsonArr "json list"
  | JsonObj "(string \<times> json) list"

fun JSON_stringify :: "jsval \<Rightarrow> json option"
  and stringify_elems :: "jsval list \<Rightarrow> json list"
  and stringify_fields :: "(string \<times> jsval) list \<Rightarrow> (string \<times> json) list" where
  "JSON_stringify JUndefined = None"
| "JSON_stringify JNull = Some JsonNull"
| "JSON_stringify (JBool b) = Some (JsonBool b)"
| "JSON_stringify (JNum n) = Some (JsonNum n)"
| "JSON_stringify (JStr s) = Some (JsonStr s)"
| "JSON_stringify (JArr xs) = Some (JsonArr (stringify_elems xs))"
| "JSON_stringify (JObj fs) = Some (JsonObj (stringify_fields fs))"
| "stringify_elems [] = []"
| "stringify_elems (x # xs) =
     (case JSON_stringify x of None \<Rightarrow> JsonNull | Some j \<Rightarrow> j) # stringify_elems xs"
| "stringify_fields [] = []"
| "stringify_fields ((k, v) # fs) =
     (case JSON_stringify v of
        None \<Rightarrow> stringify_fields fs
      | Some j \<Rightarrow> (k, j) # stringify_fields fs)"

text \<open>\<^verbatim>\<open>JSON.parse\<close> of such a document; a repeated key keeps its last value.\<close>

fun JSON_parse :: "json \<Rightarrow> jsval"
  and parse_elems :: "json list \<Rightarrow> jsval list"
  and parse_fields :: "(string \<times> jsval) list \<Rightarrow> (string \<times> json) list \<Rightarrow> (string \<times> jsval) list"
  where
  "JSON_parse JsonNull = JNull"
| "JSON_parse (JsonBool b) = JBool b"
| "JSON_parse (JsonNum n) = JNum n"
| "JSON_parse (JsonStr s) = JStr s"
| "JSON_parse (JsonArr js) = JArr (parse_elems js)"
| "JSON_parse (JsonObj fs) = JObj (parse_fields [] fs)"
| "parse_elems [] = []"
| "parse_elems (j # js) = JSON_parse j # parse_elems js"
| "parse_fields acc [] = acc"
| "parse_fields acc ((k, j) # fs) = parse_fields (upd_field acc k (JSON_parse j)) fs"

section \<open>The user identifier\<close>

text \<open>
  Modelled from the spec: \<^verbatim>\<open>MD5\<close> is imported from the library \<^verbatim>\<open>crypto-js/md5.js\<close>, which
  is not among the sources. The spec describes it as a deterministic one-way hash with a
  128-bit digest rendered as hex; the definitions below are the MD5 algorithm of RFC 1321
  on the bytes of the string (its UTF-8 encoding, one \<open>char\<close> per byte), with the digest
  held as four 32-bit words and printed byte by byte, low byte first, in lowercase hex.
\<close>

type_synonym u32 = "32 word"

definition md5_K :: "u32 list" where
  "md5_K =
     [0xd76aa478, 0xe8c7b756, 0x242070db, 0xc1bdceee,
      0xf57c0faf, 0x4787c62a, 0xa8304613, 0xfd469501,
      0x698098d8, 0x8b44f7af, 0xffff5bb1, 0x895cd7be,
      0x6b901122, 0xfd987193, 0xa679438e, 0x49b40821,
      0xf61e2562, 0xc040b340, 0x265e5a51, 0xe9b6c7aa,
      0xd62f105d, 0x02441453, 0xd8a1e681, 0xe7d3fbc8,
      0x21e1cde6, 0xc33707d6, 0xf4d50d87, 0x455a14ed,
      0xa9e3e905, 0xfcefa3f8, 0x676f02d9, 0x8d2a4c8a,
      0xfffa3942, 0x8771f681, 0x6d9d6122, 0xfde5380c,
      0xa4beea44, 0x4bdecfa9, 0xf6bb4b60, 0xbebfbc70,
      0x289b7ec6, 0xeaa127fa, 0xd4ef3085, 0x04881d05,
      0xd9d4d039, 0xe6db99e5, 0x1fa27cf8, 0xc4ac5665,
      0xf4292244, 0x432aff97, 0xab9423a7, 0xfc93a039,
      0x655b59c3, 0x8f0ccc92, 0xffeff47d, 0x85845dd1,
      0x6fa87e4f, 0xfe2ce6e0, 0xa3014314, 0x4e0811a1,
      0xf7537e82, 0xbd3af235, 0x2ad7d2bb, 0xeb86d391]"

definition md5_S :: "nat list" where
  "md5_S =
     [7, 12, 17, 22, 7, 12, 17, 22, 7, 12, 17, 22, 7, 12, 17, 22,
      5, 9, 14, 20, 5, 9, 14, 20, 5, 9, 14, 20, 5, 9, 14, 20,
      4, 11, 16, 23, 4, 11, 16, 23, 4, 11, 16, 23, 4, 11, 16, 23,
      6, 10, 15, 21, 6, 10, 15, 21, 6, 10, 15, 21, 6, 10, 15, 21]"

definition rotl32 :: "u32 \<Rightarrow> nat \<Rightarrow> u32" where
  "rotl32 x n = (push_bit n x) OR (drop_bit (32 - n) x)"

definition md5_F :: "nat \<Rightarrow> u32 \<Rightarrow> u32 \<Rightarrow> u32 \<Rightarrow> u32" where
  "md5_F i b c d =
     (if i < 16 then (b AND c) OR (NOT b AND d)
      else if i < 32 then (d AND b) OR (NOT d AND c)
      else if i < 48 then b XOR c XOR d
      else c XOR (b OR NOT d))"

definition md5_g :: "nat \<Rightarrow> nat" where
  "md5_g i =
     (if i < 16 then i
      else if i < 32 then (5 * i + 1) mod 16
      else if i < 48 then (3 * i + 5) mod 16
      else (7 * i) mod 16)"

type_synonym md5_state = "u32 \<times> u32 \<times> u32 \<times> u32"

fun md5_round :: "u32 list \<Rightarrow> md5_state \<Rightarrow> nat \<Rightarrow> md5_state" where
  "md5_round m (a, b, c, d) i =
     (d, b + rotl32 (md5_F i b c d + a + md5_K ! i + m ! md5_g i) (md5_S ! i), b, c)"

definition le_word :: "nat list \<Rightarrow> u32" where
  "le_word bs = of_nat (bs ! 0 + 256 * bs ! 1 + 65536 * bs ! 2 + 16777216 * bs ! 3)"

definition block_words :: "nat list \<Rightarrow> u32 list" where
  "block_words bs = map (\<lambda>j. le_word (take 4 (drop (4 * j) bs))) [0..<16]"

fun md5_block :: "md5_state \<Rightarrow> nat list \<Rightarrow> md5_state" where
  "md5_block (a0, b0, c0, d0) bs =
     (case foldl (md5_round (block_words bs)) (a0, b0, c0, d0) [0..<64] of
        (a, b, c, d) \<Rightarrow> (a0 + a, b0 + b, c0 + c, d0 + d))"

function md5_blocks :: "md5_state \<Rightarrow> nat list \<Rightarrow> md5_state" where
  "md5_blocks st bs =
     (if length bs < 64 then st else md5_blocks (md5_block st (take 64 bs)) (drop 64 bs))"
  by pat_completeness auto
termination
  by (relation "measure (\<lambda>(st, bs). length bs)") auto

declare md5_blocks.simps [simp del]

definition le_bytes :: "nat \<Rightarrow> nat \<Rightarrow> nat list" where
  "le_bytes k n = map (\<lambda>j. (n div 256 ^ j) mod 256) [0..<k]"

definition md5_pad :: "nat list \<Rightarrow> nat list" where
  "md5_pad bs =
     bs @ [128] @ replicate ((119 - length bs mod 64) mod 64) 0
        @ le_bytes 8 ((8 * length bs) mod 2 ^ 64)"

definition md5_init :: md5_state where
  "md5_init = (0x67452301, 0xefcdab89, 0x98badcfe, 0x10325476)"

text \<open>
  Modelled from the spec: \<^verbatim>\<open>MD5(message)\<close> of \<^verbatim>\<open>crypto-js\<close>, the 128-bit digest of the
  message as four 32-bit words.
\<close>

definition MD5 :: "string \<Rightarrow> md5_state" where
  "MD5 s = md5_blocks md5_init (md5_pad (map of_char s))"

definition hex_digit :: "nat \<Rightarrow> char" where
  "hex_digit d = ''0123456789abcdef'' ! d"

definition hex_byte :: "nat \<Rightarrow> string" where
  "hex_byte b = [hex_digit (b div 16), hex_digit (b mod 16)]"

fun digest_bytes :: "md5_state \<Rightarrow> nat list" where
  "digest_bytes (a, b, c, d) = concat (map (\<lambda>w. le_bytes 4 (unat w)) [a, b, c, d])"

text \<open>A lowercase hexadecimal digit.\<close>

definition lower_hex :: "char \<Rightarrow> bool" where
  "lower_hex c \<longleftrightarrow> c \<in> set ''0123456789abcdef''"

text \<open>
  Modelled from the spec: \<^verbatim>\<open>toString()\<close> of the digest, its sixteen bytes rendered as hex,
  two lowercase digits per byte.
\<close>

definition hex_string :: "md5_state \<Rightarrow> string" where
  "hex_string st = concat (map hex_byte (digest_bytes st))"

section \<open>The browser environment\<close>

text \<open>
  What the adapter reads from \<^verbatim>\<open>window\<close> and \<^verbatim>\<open>navigator\<close>, with the types the browser
  gives these properties; \<open>None\<close> is \<^verbatim>\<open>undefined\<close>. \<open>getDNT\<close> is the result of the host
  utility \<^verbatim>\<open>utils.getDNT()\<close>, which is not among the sources and reads the browser's
  do-not-track signal.
\<close>

record env =
  screen_width :: rat
  screen_height :: rat
  userAgent :: string
  languages :: "string list option"
  language :: "string option"
  userLanguage :: "string option"
  getDNT :: bool

definition opt_str :: "string option \<Rightarrow> jsval" where
  "opt_str x = (case x of None \<Rightarrow> JUndefined | Some s \<Rightarrow> JStr s)"

definition generateUserId :: "env \<Rightarrow> string" where
  "generateUserId e = hex_string (MD5 (userAgent e))"

definition getUserId :: "env \<Rightarrow> jsval \<Rightarrow> string" where
  "getUserId e bidRequest = generateUserId e"

text \<open>\<^verbatim>\<open>lang.split('-')[0]\<close>; a truthy value that is not a string has no \<^verbatim>\<open>split\<close>.\<close>

definition getLanguage :: "env \<Rightarrow> error + jsval" where
  "getLanguage e =
     (let langs = (case languages e of None \<Rightarrow> JUndefined | Some ls \<Rightarrow> JArr (map JStr ls));
          lang = or_js (or_js (and_js langs (getidx langs 0)) (opt_str (language e)))
                   (opt_str (userLanguage e))
      in if truthy lang
         then (case lang of
                 JStr s \<Rightarrow> Inr (JStr (takeWhile (\<lambda>c. c \<noteq> CHR ''-'') s))
               | _ \<Rightarrow> Inl TypeError)
         else Inr (JStr ''en''))"

section \<open>The host: global configuration and shared objects\<close>

text \<open>
  An object that the host owns is shared: the adapter receives a reference to it and a
  write through the reference is a write to the host's object. Such objects live in a
  store, and a variable of the adapter holds either a reference into the store or a value
  of its own (a primitive, or an object that the adapter created itself). The
  configuration binds topics to such slots; an object bound to a topic is held by
  reference.
\<close>

type_synonym addr = nat

datatype slot = Value jsval | Ref addr

record host =
  config :: "(string \<times> slot) list"
  heap :: "addr \<Rightarrow> (string \<times> jsval) list"

text \<open>
  Modelled from the spec: \<^verbatim>\<open>config.getConfig\<close> belongs to \<^verbatim>\<open>src/config.js\<close>, which is not among
  the sources. It returns what the configuration holds under a topic (debug flag, COPPA
  flag, device override) and \<^verbatim>\<open>undefined\<close> for a topic that is not set; as for any
  JavaScript accessor, an object is returned by reference, not copied.
\<close>

definition getConfig :: "host \<Rightarrow> string \<Rightarrow> slot" where
  "getConfig h topic = (case map_of (config h) topic of None \<Rightarrow> Value JUndefined | Some s \<Rightarrow> s)"

fun truthy_slot :: "slot \<Rightarrow> bool" where
  "truthy_slot (Value v) = truthy v"
| "truthy_slot (Ref a) = True"

text \<open>\<^verbatim>\<open>device.k\<close>.\<close>

fun slot_get :: "host \<Rightarrow> slot \<Rightarrow> string \<Rightarrow> error + jsval" where
  "slot_get h (Value v) k = getprop v k"
| "slot_get h (Ref a) k = Inr (lookup (heap h a) k)"

text \<open>
  \<^verbatim>\<open>device.k = v\<close>. The module is strict code, where creating a property on a primitive
  throws. An array of the adapter's own keeps no named property in this model; none is
  read back or serialised.
\<close>

fun slot_set :: "slot \<Rightarrow> string \<Rightarrow> jsval \<Rightarrow> host \<Rightarrow> (error + slot) \<times> host" where
  "slot_set (Ref a) k v h = (Inr (Ref a), h\<lparr>heap := (heap h)(a := upd_field (heap h a) k v)\<rparr>)"
| "slot_set (Value (JObj fs)) k v h = (Inr (Value (JObj (upd_field fs k v))), h)"
| "slot_set (Value (JArr xs)) k v h = (Inr (Value (JArr xs)), h)"
| "slot_set (Value w) k v h = (Inl TypeError, h)"

text \<open>The object as \<^verbatim>\<open>JSON.stringify\<close> finds it.\<close>

fun snapshot :: "host \<Rightarrow> slot \<Rightarrow> jsval" where
  "snapshot h (Value v) = v"
| "snapshot h (Ref a) = JObj (heap h a)"

text \<open>Sequencing of statements that may throw and may write to the host.\<close>

definition bind_js ::
  "(host \<Rightarrow> (error + 'a) \<times> host) \<Rightarrow> ('a \<Rightarrow> host \<Rightarrow> (error + 'b) \<times> host) \<Rightarrow>
   host \<Rightarrow> (error + 'b) \<times> host" where
  "bind_js m f h = (case m h of (Inl e, h') \<Rightarrow> (Inl e, h') | (Inr x, h') \<Rightarrow> f x h')"

section \<open>The device descriptor\<close>

text \<open>\<^verbatim>\<open>device.k = device.k || dflt\<close>, where the default is only evaluated when needed.\<close>

definition fill :: "string \<Rightarrow> error + jsval \<Rightarrow> slot \<Rightarrow> host \<Rightarrow> (error + slot) \<times> host" where
  "fill k dflt device h =
     (case slot_get h device k of
        Inl e \<Rightarrow> (Inl e, h)
      | Inr cur \<Rightarrow>
          if truthy cur then slot_set device k cur h
          else (case dflt of Inl e \<Rightarrow> (Inl e, h) | Inr d \<Rightarrow> slot_set device k d h))"

fun is_number :: "jsval \<Rightarrow> bool" where
  "is_number (JNum n) = True"
| "is_number v = False"

definition fill_dnt :: "env \<Rightarrow> slot \<Rightarrow> host \<Rightarrow> (error + slot) \<times> host" where
  "fill_dnt e device h =
     (case slot_get h device ''dnt'' of
        Inl e \<Rightarrow> (Inl e, h)
      | Inr cur \<Rightarrow>
          slot_set device ''dnt''
            (if is_number cur then cur else JNum (if getDNT e then 1 else 0)) h)"

definition getDevice :: "env \<Rightarrow> host \<Rightarrow> (error + slot) \<times> host" where
  "getDevice e h =
     (let c = getConfig h ''device'';
          device = (if truthy_slot c then c else Value (JObj []))
      in bind_js (fill ''w'' (Inr (JNum (screen_width e))) device) (\<lambda>device.
         bind_js (fill ''h'' (Inr (JNum (screen_height e))) device) (\<lambda>device.
         bind_js (fill ''ua'' (Inr (JStr (userAgent e))) device) (\<lambda>device.
         bind_js (fill ''language'' (getLanguage e) device) (\<lambda>device.
         bind_js (fill_dnt e device) (\<lambda>device h'.
         (Inr device, h')))))) h)"

section \<open>The adapter\<close>

definition BIDDER_CODE :: string where
  "BIDDER_CODE = ''freedomadnetwork''"

definition BASE_URL :: string where
  "BASE_URL = ''https://srv.freedomadnetwork.com''"

text \<open>
  Modelled from the spec: \<^verbatim>\<open>utils.deepAccess\<close> belongs to \<^verbatim>\<open>src/utils.js\<close>, which is not among
  the sources. It follows a dotted path (given here already split at the dots) and yields
  \<^verbatim>\<open>undefined\<close> as soon as a segment is missing: a step from a falsy value gives
  \<^verbatim>\<open>undefined\<close>, a step from any other value reads the property, and nothing is thrown.
\<close>

fun deepAccess :: "jsval \<Rightarrow> string list \<Rightarrow> jsval" where
  "deepAccess obj [] = obj"
| "deepAccess obj (k # ks) = deepAccess (if truthy obj then read_prop obj k else JUndefined) ks"

text \<open>
  What the adapter does to the outside: warnings through \<^verbatim>\<open>utils.logWarn\<close>, a request
  through \<^verbatim>\<open>ajax(url, callback, data, options)\<close> with the options \<^verbatim>\<open>method\<close> and
  \<^verbatim>\<open>customHeaders\<close>, and a tracking pixel through \<^verbatim>\<open>utils.triggerPixel(url)\<close>.
\<close>

datatype effect =
    LogWarn "jsval list"
  | Ajax string jsval "json option" string "(string \<times> string) list"
  | TriggerPixel jsval

subsection \<open>\<^verbatim>\<open>isBidRequestValid\<close>\<close>

definition isBidRequestValid :: "jsval \<Rightarrow> effect list \<times> (error + bool)" where
  "isBidRequestValid bid =
     (if \<not> truthy bid then ([LogWarn [JStr BIDDER_CODE, JStr ''Invalid bid'', bid]], Inr False)
      else (case getprop bid ''params'' of
        Inl e \<Rightarrow> ([], Inl e)
      | Inr params \<Rightarrow>
          if \<not> truthy params
          then ([LogWarn [JStr BIDDER_CODE, JStr ''bid.params is required'']], Inr False)
          else (case getpath bid [''params'', ''placementId''] of
            Inl e \<Rightarrow> ([], Inl e)
          | Inr placementId \<Rightarrow>
              if \<not> truthy placementId
              then ([LogWarn [JStr BIDDER_CODE, JStr ''bid.params.placementId is required'']],
                    Inr False)
              else (let banner = deepAccess bid [''mediaTypes'', ''banner'']
                    in if banner = JUndefined then ([], Inr False) else ([], Inr True)))))"

subsection \<open>\<^verbatim>\<open>buildRequests\<close>\<close>

record request =
  req_method :: string
  req_url :: string
  req_data :: "json option"
  contentType :: string
  withCredentials :: bool
  customHeaders :: "(string \<times> string) list"
  originalBidRequest :: jsval

text \<open>The array literal \<^verbatim>\<open>[e]\<close>.\<close>

definition arr_literal1 :: "error + jsval \<Rightarrow> error + jsval" where
  "arr_literal1 r = (case r of Inl e \<Rightarrow> Inl e | Inr v \<Rightarrow> Inr (JArr [v]))"

text \<open>
  The payload literal is evaluated field by field: \<^verbatim>\<open>id\<close>, \<^verbatim>\<open>tmax\<close>, \<^verbatim>\<open>placements\<close> and
  \<^verbatim>\<open>test\<close> before the call of \<^verbatim>\<open>getDevice\<close>, \<^verbatim>\<open>at\<close> and \<^verbatim>\<open>user\<close> after it. The two
  consent blocks then assign into \<^verbatim>\<open>payload.user\<close>; \<^verbatim>\<open>gdprConsent\<close> is truthy where its
  properties are read. \<^verbatim>\<open>JSON.stringify\<close> sees the device object as it is at that moment.
\<close>

definition buildBidRequest ::
  "env \<Rightarrow> jsval \<Rightarrow> jsval \<Rightarrow> host \<Rightarrow> (error + request) \<times> host" where
  "buildBidRequest e bid bidderRequest h =
     (let userId = getUserId e bid in
      case obj_fields
             [(''id'', getprop bid ''bidId''),
              (''tmax'', getprop bidderRequest ''timeout''),
              (''placements'', arr_literal1 (getpath bid [''params'', ''placementId''])),
              (''test'', Inr (JNum (if truthy_slot (getConfig h ''debug'') then 1 else 0)))] of
        Inl err \<Rightarrow> (Inl err, h)
      | Inr front \<Rightarrow>
          (case getDevice e h of
             (Inl err, h') \<Rightarrow> (Inl err, h')
           | (Inr device, h') \<Rightarrow>
               (let user = [(''coppa'', JNum (if truthy_slot (getConfig h' ''coppa'') then 1 else 0))];
                    gdprConsent = deepAccess bidderRequest [''gdprConsent''];
                    user = (if truthy gdprConsent \<and> truthy (read_prop gdprConsent ''gdprApplies'')
                            then upd_field (upd_field user ''gdpr'' (JNum 1))
                                   ''consent'' (read_prop gdprConsent ''consentString'')
                            else user);
                    uspConsent = deepAccess bidderRequest [''uspConsent''];
                    user = (if truthy uspConsent then upd_field user ''usp'' uspConsent else user);
                    payload = JObj (front @
                                [(''device'', snapshot h' device),
                                 (''at'', JNum 2),
                                 (''user'', JObj user)])
                in (Inr \<lparr>req_method = ''POST'',
                          req_url = BASE_URL @ ''/pb/req'',
                          req_data = JSON_stringify payload,
                          contentType = ''application/json'',
                          withCredentials = False,
                          customHeaders =
                            [(''Accept-Language'', ''en;q=10''),
                             (''Authorization'', ''Bearer '' @ userId)],
                          originalBidRequest = bid\<rparr>, h'))))"

text \<open>\<^verbatim>\<open>validBidRequests.map(bid => buildBidRequest(bid, bidderRequest))\<close>, left to right.\<close>

fun buildRequests ::
  "env \<Rightarrow> jsval list \<Rightarrow> jsval \<Rightarrow> host \<Rightarrow> (error + request list) \<times> host" where
  "buildRequests e [] bidderRequest h = (Inr [], h)"
| "buildRequests e (bid # bids) bidderRequest h =
     (case buildBidRequest e bid bidderRequest h of
        (Inl err, h') \<Rightarrow> (Inl err, h')
      | (Inr r, h') \<Rightarrow>
          (case buildRequests e bids bidderRequest h' of
             (Inl err, h'') \<Rightarrow> (Inl err, h'')
           | (Inr rs, h'') \<Rightarrow> (Inr (r # rs), h'')))"

subsection \<open>\<^verbatim>\<open>interpretResponse\<close>\<close>

definition interpretEntry :: "jsval \<Rightarrow> error + jsval" where
  "interpretEntry response =
     obj_literal
       [(''requestId'', getprop response ''id''),
        (''bidid'', getprop response ''bidid''),
        (''impid'', getprop response ''impid''),
        (''userId'', getprop response ''userId''),
        (''cpm'', getprop response ''cpm''),
        (''currency'', getprop response ''currency''),
        (''width'', getprop response ''width''),
        (''height'', getprop response ''height''),
        (''ad'', getprop response ''payload''),
        (''ttl'', getprop response ''ttl''),
        (''creativeId'', getprop response ''crid''),
        (''netRevenue'', getprop response ''netRevenue''),
        (''trackers'', getprop response ''trackers''),
        (''meta'', obj_literal
           [(''mediaType'', getprop response ''mediaType''),
            (''advertiserDomains'', getprop response ''domains'')])]"

text \<open>The \<^verbatim>\<open>forEach\<close> callback pushes one bid per entry onto \<^verbatim>\<open>bidResponses\<close>.\<close>

fun forEach_push :: "jsval list \<Rightarrow> jsval list \<Rightarrow> error + jsval list" where
  "forEach_push [] bidResponses = Inr bidResponses"
| "forEach_push (response # rest) bidResponses =
     (case interpretEntry response of
        Inl e \<Rightarrow> Inl e
      | Inr bidResponse \<Rightarrow> forEach_push rest (bidResponses @ [bidResponse]))"

text \<open>Only an array has \<^verbatim>\<open>forEach\<close>; on any other truthy body the call is a
  \<^verbatim>\<open>TypeError\<close>.\<close>

definition interpretResponse :: "jsval \<Rightarrow> jsval \<Rightarrow> error + jsval list" where
  "interpretResponse serverResponse bidRequest =
     (case getprop serverResponse ''body'' of
        Inl e \<Rightarrow> Inl e
      | Inr serverBody \<Rightarrow>
          if \<not> truthy serverBody then Inr []
          else (case serverBody of
                  JArr entries \<Rightarrow> forEach_push entries []
                | _ \<Rightarrow> Inl TypeError))"

subsection \<open>\<^verbatim>\<open>onBidWon\<close>\<close>

text \<open>\<^verbatim>\<open>v[i]\<close> and \<^verbatim>\<open>bid.trackers[i]\<close>.\<close>

definition getindex :: "jsval \<Rightarrow> nat \<Rightarrow> error + jsval" where
  "getindex v i = (if nullish v then Inl TypeError else Inr (getidx v i))"

definition tracker_at :: "jsval \<Rightarrow> nat \<Rightarrow> error + jsval" where
  "tracker_at bid i = (case getprop bid ''trackers'' of Inl e \<Rightarrow> Inl e | Inr t \<Rightarrow> getindex t i)"

text \<open>
  The loop \<^verbatim>\<open>for (var i = 0; i < bid.trackers.length; i++)\<close> from index \<open>i\<close> on, with the
  effects so far. A throw ends it, and the effects already caused stay.
\<close>

function trackers_loop ::
  "engine \<Rightarrow> jsval \<Rightarrow> nat \<Rightarrow> effect list \<Rightarrow> effect list \<times> (error + unit)" where
  "trackers_loop eng bid i fx =
     (case getpath bid [''trackers'', ''length''] of
        Inl e \<Rightarrow> (fx, Inl e)
      | Inr len \<Rightarrow>
          (case num_lt eng i len of
             Inl e \<Rightarrow> (fx, Inl e)
           | Inr inside \<Rightarrow>
               if \<not> inside then (fx, Inr ())
               else (case tracker_at bid i of
                 Inl e \<Rightarrow> (fx, Inl e)
               | Inr tracker \<Rightarrow>
                   (case getprop tracker ''type'' of
                      Inl e \<Rightarrow> (fx, Inl e)
                    | Inr ty \<Rightarrow>
                        (case loose_eq_zero eng ty of
                           Inl e \<Rightarrow> (fx, Inl e)
                         | Inr impression \<Rightarrow>
                             if impression
                             then (case getprop tracker ''url'' of
                                     Inl e \<Rightarrow> (fx, Inl e)
                                   | Inr u \<Rightarrow>
                                       trackers_loop eng bid (i + 1) (fx @ [TriggerPixel u]))
                             else trackers_loop eng bid (i + 1) fx)))))"
  by pat_completeness auto
termination
proof -
  have step: "nat \<lceil>r\<rceil> - Suc i < nat \<lceil>r\<rceil> - i" if "of_nat i < r" for i :: nat and r :: rat
  proof -
    from that have "of_int (int i) < r" by simp
    then have "int i < \<lceil>r\<rceil>" by (simp only: less_ceiling_iff)
    then show ?thesis by linarith
  qed
  show ?thesis
    by (relation "measure (\<lambda>(eng, bid, i, fx).
          case getpath bid [''trackers'', ''length''] of
            Inl e \<Rightarrow> 0
          | Inr len \<Rightarrow>
              (case ToNumber eng len of
                 Inl e \<Rightarrow> 0
               | Inr None \<Rightarrow> 0
               | Inr (Some r) \<Rightarrow> nat \<lceil>r\<rceil> - i))")
       (auto simp: num_lt_def step split: sum.splits option.splits)
qed

declare trackers_loop.simps [simp del]

text \<open>
  The arguments of \<^verbatim>\<open>ajax\<close> are evaluated before the call: a throw in
  \<^verbatim>\<open>'Bearer ' + bid.userId\<close> leaves no effect behind.
\<close>

definition onBidWon :: "engine \<Rightarrow> jsval \<Rightarrow> effect list \<times> (error + unit)" where
  "onBidWon eng bid =
     (if \<not> truthy bid then ([], Inr ())
      else (case obj_literal
                   [(''id'', getprop bid ''bidid''),
                    (''impid'', getprop bid ''impid''),
                    (''t'', getprop bid ''cpm'')] of
        Inl e \<Rightarrow> ([], Inl e)
      | Inr payload \<Rightarrow>
          (case getprop bid ''userId'' of
             Inl e \<Rightarrow> ([], Inl e)
           | Inr userId \<Rightarrow>
               (case ToString eng userId of
                  Inl e \<Rightarrow> ([], Inl e)
                | Inr bearer \<Rightarrow>
                    (let fx = [Ajax (BASE_URL @ ''/pb/imp'') JNull (JSON_stringify payload)
                                 ''POST''
                                 [(''Accept-Language'', ''en;q=10''),
                                  (''Authorization'', ''Bearer '' @ bearer)]]
                     in case getprop bid ''trackers'' of
                          Inl e \<Rightarrow> (fx, Inl e)
                        | Inr trackers \<Rightarrow>
                            if \<not> truthy trackers then (fx, Inr ())
                            else (case getpath bid [''trackers'', ''length''] of
                              Inl e \<Rightarrow> (fx, Inl e)
                            | Inr len \<Rightarrow>
                                (case gt_zero eng len of
                                   Inl e \<Rightarrow> (fx, Inl e)
                                 | Inr nonempty \<Rightarrow>
                                     if nonempty then trackers_loop eng bid 0 fx
                                     else (fx, Inr ()))))))))"

text \<open>The fields of an interpreted bid, each with the field of the server's entry it is
  copied from.\<close>

definition copied_fields :: "(string list \<times> string) list" where
  "copied_fields =
     [([''requestId''], ''id''), ([''bidid''], ''bidid''), ([''impid''], ''impid''),
      ([''userId''], ''userId''), ([''cpm''], ''cpm''), ([''currency''], ''currency''),
      ([''width''], ''width''), ([''height''], ''height''), ([''ad''], ''payload''),
      ([''ttl''], ''ttl''), ([''creativeId''], ''crid''), ([''netRevenue''], ''netRevenue''),
      ([''trackers''], ''trackers''), ([''meta'', ''mediaType''], ''mediaType''),
      ([''meta'', ''advertiserDomains''], ''domains'')]"

section \<open>Notions used in the statements\<close>

text \<open>
  What a property holds after its object went through \<^verbatim>\<open>JSON.stringify\<close> and
  \<^verbatim>\<open>JSON.parse\<close>: a property that is \<^verbatim>\<open>undefined\<close> is dropped and reads as \<^verbatim>\<open>undefined\<close>
  afterwards.
\<close>

definition through_json :: "jsval \<Rightarrow> jsval" where
  "through_json v = (case JSON_stringify v of None \<Rightarrow> JUndefined | Some j \<Rightarrow> JSON_parse j)"

text \<open>
  The values that JSON carries unchanged: no \<^verbatim>\<open>undefined\<close> anywhere inside, and no
  repeated key in an object.
\<close>

fun json_value :: "jsval \<Rightarrow> bool"
  and json_values :: "jsval list \<Rightarrow> bool"
  and json_fields :: "(string \<times> jsval) list \<Rightarrow> bool" where
  "json_value JUndefined = False"
| "json_value JNull = True"
| "json_value (JBool b) = True"
| "json_value (JNum n) = True"
| "json_value (JStr s) = True"
| "json_value (JArr xs) = json_values xs"
| "json_value (JObj fs) = (distinct (map fst fs) \<and> json_fields fs)"
| "json_values [] = True"
| "json_values (x # xs) = (json_value x \<and> json_values xs)"
| "json_fields [] = True"
| "json_fields ((k, v) # fs) = (json_value v \<and> json_fields fs)"

text \<open>
  The values that \<^verbatim>\<open>ToString\<close> and \<^verbatim>\<open>ToNumber\<close> convert without throwing: all primitives,
  the objects without an own property \<^verbatim>\<open>toString\<close>, and the arrays whose elements are
  \<^verbatim>\<open>undefined\<close>, \<^verbatim>\<open>null\<close> or such values.
\<close>

fun converts :: "jsval \<Rightarrow> bool"
  and converts_elems :: "jsval list \<Rightarrow> bool" where
  "converts JUndefined = True"
| "converts JNull = True"
| "converts (JBool b) = True"
| "converts (JNum n) = True"
| "converts (JStr s) = True"
| "converts (JArr xs) = converts_elems xs"
| "converts (JObj fs) = (''toString'' \<notin> set (map fst fs))"
| "converts_elems [] = True"
| "converts_elems (x # xs) = ((nullish x \<or> converts x) \<and> converts_elems xs)"

text \<open>
  Messages with their MD5 digest in hex: \<^verbatim>\<open>abc\<close> from the test suite of RFC 1321
  (appendix A.5) and the user agents of two desktop browsers, one of 62 bytes, whose
  padding spills into a second block, and one of 101 bytes.
\<close>

definition md5_known_answers :: "(string \<times> string) list" where
  "md5_known_answers =
     [(''abc'', ''900150983cd24fb0d6963f7d28e17f72''),
      (''Mozilla/5.0 (Windows NT 10.0; Trident/7.0; rv:11.0) like Gecko'',
       ''ebec30b4c1c9d087de5b9e9cc07cb62a''),
      (''Mozilla/5.0 (X11; Linux x86_64) AppleWebKit/537.36 (KHTML, like Gecko) Chrome/120.0.0.0 Safari/537.36'',
       ''4be5075824dfc9ebfcea962f3188097c'')]"

text \<open>The slots on which a property can be set: objects and arrays, held by reference
  or by value.\<close>

fun holds_properties :: "slot \<Rightarrow> bool" where
  "holds_properties (Ref a) = True"
| "holds_properties (Value (JObj fs)) = True"
| "holds_properties (Value (JArr xs)) = True"
| "holds_properties (Value v) = False"

text \<open>\<^verbatim>\<open>Object.hasOwn(v, k)\<close> for an object of the tree model.\<close>

fun has_own :: "jsval \<Rightarrow> string \<Rightarrow> bool" where
  "has_own (JObj fs) k = (k \<in> fst ` set fs)"
| "has_own v k = False"

text \<open>
  The object \<^verbatim>\<open>payload.user\<close> as \<^verbatim>\<open>buildBidRequest\<close> leaves it: the literal with \<^verbatim>\<open>coppa\<close>,
  then the two consent blocks. Lemma \<open>buildBidRequest_shape\<close> below shows that this is
  the object inside the request that \<open>buildBidRequest\<close> returns.
\<close>

definition user_object :: "host \<Rightarrow> jsval \<Rightarrow> (string \<times> jsval) list" where
  "user_object h bidderRequest =
     (let user = [(''coppa'', JNum (if truthy_slot (getConfig h ''coppa'') then 1 else 0))];
          gdprConsent = deepAccess bidderRequest [''gdprConsent''];
          user = (if truthy gdprConsent \<and> truthy (read_prop gdprConsent ''gdprApplies'')
                  then upd_field (upd_field user ''gdpr'' (JNum 1))
                         ''consent'' (read_prop gdprConsent ''consentString'')
                  else user);
          uspConsent = deepAccess bidderRequest [''uspConsent'']
      in if truthy uspConsent then upd_field user ''usp'' uspConsent else user)"

subsection \<open>Sample inputs\<close>

text \<open>
  A browser, a valid bid request, an auction context with both consent signals and one
  with none, a host configuration without device override, and one whose device override
  is the object \<^verbatim>\<open>{w: 300}\<close>, stored at address 0.
\<close>

definition sample_env :: env where
  "sample_env =
     \<lparr>screen_width = 1920, screen_height = 1080, userAgent = ''Mozilla/5.0'',
      languages = Some [''en-US'', ''de''], language = Some ''en-US'', userLanguage = None,
      getDNT = False\<rparr>"

definition sample_bid :: jsval where
  "sample_bid =
     JObj [(''bidId'', JStr ''bid-1''),
           (''params'', JObj [(''placementId'', JStr ''p-1'')]),
           (''mediaTypes'', JObj [(''banner'', JObj [(''sizes'', JArr [])])])]"

definition sample_context :: jsval where
  "sample_context =
     JObj [(''timeout'', JNum 3000),
           (''gdprConsent'', JObj [(''gdprApplies'', JBool True),
                                    (''consentString'', JStr ''CONSENT'')]),
           (''uspConsent'', JStr ''1YNN'')]"

definition plain_context :: jsval where
  "plain_context = JObj [(''timeout'', JNum 3000)]"

definition sample_host :: host where
  "sample_host = \<lparr>config = [(''debug'', Value (JBool True))], heap = (\<lambda>a. [])\<rparr>"

definition override_host :: host where
  "override_host =
     \<lparr>config = [(''device'', Ref 0)], heap = (\<lambda>a. [])(0 := [(''w'', JNum 300)])\<rparr>"

section \<open>Basic facts about member reads\<close>

lemma getprop_truthy: "truthy v \<Longrightarrow> getprop v k = Inr (read_prop v k)"
  by (cases v) (simp_all add: getprop_def)

lemma getprop_not_nullish: "\<not> nullish v \<Longrightarrow> getprop v k = Inr (read_prop v k)"
  by (simp add: getprop_def)

lemma truthy_not_nullish: "truthy v \<Longrightarrow> \<not> nullish v"
  by (cases v) simp_all

section \<open>The validity check\<close>

text \<open>
  Claim C3. A bid request that is absent, lacks \<^verbatim>\<open>params\<close>, lacks \<^verbatim>\<open>params.placementId\<close>
  or declares no banner media type (\<^verbatim>\<open>mediaTypes.banner\<close> is \<^verbatim>\<open>undefined\<close>) is rejected:
  \<^verbatim>\<open>isBidRequestValid\<close> returns \<^verbatim>\<open>false\<close>. A bid request with \<^verbatim>\<open>params.placementId\<close> present
  and a banner declaration is accepted: it returns \<^verbatim>\<open>true\<close>. In both cases it returns, it
  does not throw. Absent and lacking are the test the code applies, \<^verbatim>\<open>!x\<close>, which holds
  of \<^verbatim>\<open>undefined\<close>, \<^verbatim>\<open>null\<close>, \<^verbatim>\<open>false\<close>, \<^verbatim>\<open>0\<close> and the empty string; present is its negation.
\<close>

theorem isBidRequestValid_spec:
  "(\<not> truthy bid
      \<or> \<not> truthy (read_prop bid ''params'')
      \<or> \<not> truthy (read_prop (read_prop bid ''params'') ''placementId'')
      \<or> read_prop (read_prop bid ''mediaTypes'') ''banner'' = JUndefined
    \<longrightarrow> snd (isBidRequestValid bid) = Inr False)
   \<and> (truthy (read_prop (read_prop bid ''params'') ''placementId'')
        \<and> read_prop (read_prop bid ''mediaTypes'') ''banner'' \<noteq> JUndefined
    \<longrightarrow> snd (isBidRequestValid bid) = Inr True)"
proof -
  have banner: "deepAccess bid [''mediaTypes'', ''banner'']
                  = read_prop (read_prop bid ''mediaTypes'') ''banner''"
    if "truthy bid"
    using that by (cases "read_prop bid ''mediaTypes''") simp_all
  have params: "truthy (read_prop bid ''params'')"
    if "truthy (read_prop (read_prop bid ''params'') ''placementId'')"
    using that by (cases "read_prop bid ''params''") (simp_all split: if_splits)
  have bid: "truthy bid" if "truthy (read_prop bid ''params'')"
    using that by (cases bid) (simp_all split: if_splits)
  show ?thesis
    using params bid banner
    by (auto simp: isBidRequestValid_def getprop_truthy Let_def simp del: deepAccess.simps)
qed

theorem isBidRequestValid_spec_witness:
  "snd (isBidRequestValid
         (JObj [(''bidId'', JStr ''b1''),
                (''params'', JObj [(''placementId'', JStr ''p1'')]),
                (''mediaTypes'', JObj [(''banner'', JObj [])])])) = Inr True
   \<and> snd (isBidRequestValid (JObj [(''params'', JObj [])])) = Inr False
   \<and> snd (isBidRequestValid
         (JObj [(''params'', JObj [(''placementId'', JStr ''p1'')])])) = Inr False
   \<and> snd (isBidRequestValid JUndefined) = Inr False"
  using isBidRequestValid_spec
          [of "JObj [(''bidId'', JStr ''b1''),
                     (''params'', JObj [(''placementId'', JStr ''p1'')]),
                     (''mediaTypes'', JObj [(''banner'', JObj [])])]"]
        isBidRequestValid_spec [of "JObj [(''params'', JObj [])]"]
        isBidRequestValid_spec [of "JObj [(''params'', JObj [(''placementId'', JStr ''p1'')])]"]
        isBidRequestValid_spec [of JUndefined]
  by (simp add: lookup_def)

section \<open>The win notifier\<close>

text \<open>
  Claim C9. When the bid argument is absent (\<^verbatim>\<open>undefined\<close> or any other falsy value),
  \<^verbatim>\<open>onBidWon\<close> returns at once: no request is sent and no tracking pixel is fired.
\<close>

theorem onBidWon_absent:
  "\<not> truthy bid \<Longrightarrow> onBidWon eng bid = ([], Inr ())"
  by (simp add: onBidWon_def)

theorem onBidWon_absent_witness:
  "\<not> truthy JUndefined
   \<and> onBidWon \<lparr>NumberToString = (\<lambda>q. ''0''), StringToNumber = (\<lambda>s. None)\<rparr> JUndefined
       = ([], Inr ())"
  using onBidWon_absent
          [of JUndefined "\<lparr>NumberToString = (\<lambda>q. ''0''), StringToNumber = (\<lambda>s. None)\<rparr>"]
  by simp

section \<open>The response interpreter\<close>

lemma interpretEntry_nullish: "nullish r \<Longrightarrow> interpretEntry r = Inl TypeError"
  by (simp add: interpretEntry_def obj_literal_def getprop_def)

lemma interpretEntry_ok:
  "\<not> nullish r \<Longrightarrow>
   interpretEntry r =
     Inr (JObj
       [(''requestId'', read_prop r ''id''),
        (''bidid'', read_prop r ''bidid''),
        (''impid'', read_prop r ''impid''),
        (''userId'', read_prop r ''userId''),
        (''cpm'', read_prop r ''cpm''),
        (''currency'', read_prop r ''currency''),
        (''width'', read_prop r ''width''),
        (''height'', read_prop r ''height''),
        (''ad'', read_prop r ''payload''),
        (''ttl'', read_prop r ''ttl''),
        (''creativeId'', read_prop r ''crid''),
        (''netRevenue'', read_prop r ''netRevenue''),
        (''trackers'', read_prop r ''trackers''),
        (''meta'', JObj
           [(''mediaType'', read_prop r ''mediaType''),
            (''advertiserDomains'', read_prop r ''domains'')])])"
  by (simp add: interpretEntry_def obj_literal_def getprop_def)

lemma forEach_push_ok:
  "\<forall>r \<in> set rs. \<not> nullish r \<Longrightarrow>
   forEach_push rs acc = Inr (acc @ map (\<lambda>r. projr (interpretEntry r)) rs)"
proof (induction rs arbitrary: acc)
  case Nil
  then show ?case by simp
next
  case (Cons r rs)
  from Cons.prems have "\<not> nullish r" by simp
  then obtain b where b: "interpretEntry r = Inr b"
    using interpretEntry_ok by blast
  with Cons show ?case by simp
qed

lemma forEach_push_throws:
  "\<exists>r \<in> set rs. nullish r \<Longrightarrow> forEach_push rs acc = Inl TypeError"
proof (induction rs arbitrary: acc)
  case Nil
  then show ?case by simp
next
  case (Cons r rs)
  show ?case
  proof (cases "nullish r")
    case True
    then show ?thesis by (simp add: interpretEntry_nullish)
  next
    case False
    with Cons.prems have "\<exists>r \<in> set rs. nullish r" by simp
    with Cons.IH False show ?thesis by (simp add: interpretEntry_ok)
  qed
qed

text \<open>
  Claim C6. For a server response whose body is absent or empty (\<^verbatim>\<open>undefined\<close>, \<^verbatim>\<open>null\<close>,
  the empty string or the empty array), \<^verbatim>\<open>interpretResponse\<close> returns the empty list and
  raises no error.
\<close>

theorem interpretResponse_empty_body:
  assumes "getprop serverResponse ''body'' = Inr body"
    and "body = JUndefined \<or> body = JNull \<or> body = JStr [] \<or> body = JArr []"
  shows "interpretResponse serverResponse bidRequest = Inr []"
  using assms by (auto simp: interpretResponse_def)

theorem interpretResponse_empty_body_witness:
  "interpretResponse (JObj []) JUndefined = Inr []
   \<and> interpretResponse (JObj [(''body'', JStr [])]) JUndefined = Inr []
   \<and> interpretResponse (JObj [(''body'', JArr [])]) JUndefined = Inr []"
  using interpretResponse_empty_body [of "JObj []" JUndefined JUndefined]
        interpretResponse_empty_body [of "JObj [(''body'', JStr [])]" "JStr []" JUndefined]
        interpretResponse_empty_body [of "JObj [(''body'', JArr [])]" "JArr []" JUndefined]
  by (simp add: getprop_def lookup_def)

text \<open>
  Claim C2 says that \<^verbatim>\<open>interpretResponse\<close> never throws on a body that is an array, even
  for an entry that is \<^verbatim>\<open>null\<close> or \<^verbatim>\<open>undefined\<close>. The body \<^verbatim>\<open>[null]\<close> refutes it: the first
  field copy, \<^verbatim>\<open>response.id\<close>, reads a property of \<^verbatim>\<open>null\<close>.
\<close>

theorem interpretResponse_null_entry_throws:
  "interpretResponse (JObj [(''body'', JArr [JNull])]) JUndefined = Inl TypeError"
  by (simp add: interpretResponse_def getprop_def lookup_def interpretEntry_def obj_literal_def)

text \<open>
  Claim C2, as amended. For a server response whose body is an array, \<^verbatim>\<open>interpretResponse\<close>
  returns normally exactly when no entry is \<^verbatim>\<open>null\<close> or \<^verbatim>\<open>undefined\<close>. An entry that lacks
  any of the copied fields, or that is no object at all, is accepted (the missing fields
  are copied as \<^verbatim>\<open>undefined\<close>); a \<^verbatim>\<open>null\<close> or \<^verbatim>\<open>undefined\<close> entry makes the call throw.
\<close>

theorem interpretResponse_returns_iff:
  assumes "getprop serverResponse ''body'' = Inr (JArr entries)"
  shows "(\<exists>bids. interpretResponse serverResponse bidRequest = Inr bids)
         \<longleftrightarrow> (\<forall>entry \<in> set entries. entry \<noteq> JNull \<and> entry \<noteq> JUndefined)"
proof (cases "\<forall>entry \<in> set entries. \<not> nullish entry")
  case True
  then have "\<forall>entry \<in> set entries. entry \<noteq> JNull \<and> entry \<noteq> JUndefined" by auto
  with True assms show ?thesis
    by (simp add: interpretResponse_def forEach_push_ok)
next
  case False
  then obtain entry where entry: "entry \<in> set entries" "nullish entry" by blast
  from entry(2) have "entry = JNull \<or> entry = JUndefined"
    by (cases entry) simp_all
  with entry have bad: "\<not> (\<forall>entry \<in> set entries. entry \<noteq> JNull \<and> entry \<noteq> JUndefined)"
    by blast
  from entry have "forEach_push entries [] = Inl TypeError"
    by (intro forEach_push_throws) blast
  with assms have "interpretResponse serverResponse bidRequest = Inl TypeError"
    by (simp add: interpretResponse_def)
  with bad show ?thesis by simp
qed

theorem interpretResponse_returns_iff_witness:
  "(\<exists>bids. interpretResponse
             (JObj [(''body'', JArr [JObj [], JNum 7, JObj [(''id'', JStr ''b1'')]])])
             JUndefined = Inr bids)
   \<and> \<not> (\<exists>bids. interpretResponse
             (JObj [(''body'', JArr [JObj [], JUndefined])]) JUndefined = Inr bids)"
  using interpretResponse_returns_iff
          [of "JObj [(''body'', JArr [JObj [], JNum 7, JObj [(''id'', JStr ''b1'')]])]"
              "[JObj [], JNum 7, JObj [(''id'', JStr ''b1'')]]" JUndefined]
        interpretResponse_returns_iff
          [of "JObj [(''body'', JArr [JObj [], JUndefined])]" "[JObj [], JUndefined]" JUndefined]
  by (simp add: getprop_def lookup_def)

text \<open>
  Claim C7. For a server response whose body is an array of \<open>N\<close> well-formed entries
  (entries that are neither \<^verbatim>\<open>null\<close> nor \<^verbatim>\<open>undefined\<close>), \<^verbatim>\<open>interpretResponse\<close> returns exactly
  \<open>N\<close> bids, the \<open>i\<close>-th bid made from the \<open>i\<close>-th entry: nothing is sorted, filtered or
  deduplicated, every copied field of the \<open>i\<close>-th bid is the corresponding field of the
  \<open>i\<close>-th entry, and in particular its \<^verbatim>\<open>meta.advertiserDomains\<close> is the entry's \<^verbatim>\<open>domains\<close>.
\<close>

theorem interpretResponse_in_order:
  assumes "getprop serverResponse ''body'' = Inr (JArr entries)"
    and "\<forall>entry \<in> set entries. \<not> nullish entry"
  shows "\<exists>bids. interpretResponse serverResponse bidRequest = Inr bids
           \<and> length bids = length entries
           \<and> (\<forall>i < length entries.
                 getpath (bids ! i) [''meta'', ''advertiserDomains'']
                   = Inr (read_prop (entries ! i) ''domains'')
                 \<and> (\<forall>(out, src) \<in> set copied_fields.
                       getpath (bids ! i) out = Inr (read_prop (entries ! i) src)))"
proof -
  let ?bids = "map (\<lambda>r. projr (interpretEntry r)) entries"
  have res: "interpretResponse serverResponse bidRequest = Inr ?bids"
    using assms by (simp add: interpretResponse_def forEach_push_ok)
  have each: "getpath (?bids ! i) [''meta'', ''advertiserDomains'']
                   = Inr (read_prop (entries ! i) ''domains'')
                 \<and> (\<forall>(out, src) \<in> set copied_fields.
                       getpath (?bids ! i) out = Inr (read_prop (entries ! i) src))"
    if "i < length entries" for i
  proof -
    from that assms(2) have "\<not> nullish (entries ! i)" by simp
    then show ?thesis
      using that
      by (simp add: interpretEntry_ok copied_fields_def getprop_def lookup_def)
  qed
  from res each show ?thesis by simp
qed

theorem interpretResponse_in_order_witness:
  "\<exists>bids. interpretResponse
            (JObj [(''body'',
               JArr [JObj [(''id'', JStr ''b2''), (''domains'', JArr [JStr ''x.com''])],
                     JObj [(''id'', JStr ''b1''), (''domains'', JArr [JStr ''a.org''])]])])
            JUndefined = Inr bids
     \<and> length bids = 2
     \<and> getpath (bids ! 0) [''meta'', ''advertiserDomains''] = Inr (JArr [JStr ''x.com''])
     \<and> getpath (bids ! 1) [''meta'', ''advertiserDomains''] = Inr (JArr [JStr ''a.org''])"
proof -
  let ?entries = "[JObj [(''id'', JStr ''b2''), (''domains'', JArr [JStr ''x.com''])],
                   JObj [(''id'', JStr ''b1''), (''domains'', JArr [JStr ''a.org''])]]"
  let ?response = "JObj [(''body'', JArr ?entries)]"
  have body: "getprop ?response ''body'' = Inr (JArr ?entries)"
    by (simp add: getprop_def lookup_def)
  have entries: "\<forall>entry \<in> set ?entries. \<not> nullish entry"
    by simp
  from interpretResponse_in_order [OF body entries, of JUndefined]
  obtain bids where bids: "interpretResponse ?response JUndefined = Inr bids"
    and len: "length bids = length ?entries"
    and each: "\<forall>i < length ?entries.
                 getpath (bids ! i) [''meta'', ''advertiserDomains'']
                   = Inr (read_prop (?entries ! i) ''domains'')"
    by blast
  from each have "getpath (bids ! 0) [''meta'', ''advertiserDomains'']
                    = Inr (read_prop (?entries ! 0) ''domains'')"
    by simp
  moreover from each have "getpath (bids ! 1) [''meta'', ''advertiserDomains'']
                    = Inr (read_prop (?entries ! 1) ''domains'')"
    by simp
  ultimately show ?thesis
    using bids len by (simp add: lookup_def)
qed

subsection \<open>The tracker loop on a tracker list\<close>

lemma ToString_converts:
  "(\<exists>s. ToString eng v = Inr s) \<longleftrightarrow> converts v"
  "(\<exists>ss. ToString_elems eng xs = Inr ss) \<longleftrightarrow> converts_elems xs"
  by (induction v and xs rule: converts_converts_elems.induct)
     (auto split: sum.splits)

lemma ToNumber_converts: "converts v \<Longrightarrow> \<exists>r. ToNumber eng v = Inr r"
  using ToString_converts(1) [of eng v]
  by (cases v) (auto simp del: ToString.simps split: sum.splits)

lemma loose_eq_zero_converts: "converts v \<Longrightarrow> \<exists>b. loose_eq_zero eng v = Inr b"
  using ToNumber_converts [of v eng]
  by (auto simp: loose_eq_zero_def)

lemma loose_eq_zero_num: "loose_eq_zero eng (JNum n) = Inr (n = 0)"
  by (simp add: loose_eq_zero_def)

lemma num_lt_num: "num_lt eng i (JNum q) = Inr (of_nat i < q)"
  by (simp add: num_lt_def)

lemma gt_zero_num: "gt_zero eng (JNum q) = Inr (0 < q)"
  by (simp add: gt_zero_def)

lemma trackers_length:
  assumes "truthy bid" and "read_prop bid ''trackers'' = JArr ts"
  shows "getpath bid [''trackers'', ''length''] = Inr (JNum (of_nat (length ts)))"
  using assms by (simp add: getprop_def truthy_not_nullish)

lemma tracker_at_array:
  assumes "truthy bid" and "read_prop bid ''trackers'' = JArr ts" and "i < length ts"
  shows "tracker_at bid i = Inr (ts ! i)"
  using assms by (simp add: tracker_at_def getprop_def truthy_not_nullish getindex_def)

lemma trackers_loop_array:
  assumes bid: "truthy bid" and ts: "read_prop bid ''trackers'' = JArr ts"
    and objs: "\<forall>t \<in> set ts. \<not> nullish t \<and> converts (read_prop t ''type'')"
  shows "trackers_loop eng bid i fx =
           (fx @ map (\<lambda>t. TriggerPixel (read_prop t ''url''))
                   (filter (\<lambda>t. loose_eq_zero eng (read_prop t ''type'') = Inr True)
                      (drop i ts)),
            Inr ())"
proof (induction "length ts - i" arbitrary: i fx)
  case 0
  then have "\<not> i < length ts" by simp
  then show ?case
    by (subst trackers_loop.simps, subst trackers_length [OF bid ts])
       (simp add: num_lt_num)
next
  case (Suc k)
  then have i: "i < length ts" by simp
  then have "ts ! i \<in> set ts" by simp
  with objs have nn: "\<not> nullish (ts ! i)" and cv: "converts (read_prop (ts ! i) ''type'')"
    by blast+
  from loose_eq_zero_converts [OF cv] obtain z
    where z: "loose_eq_zero eng (read_prop (ts ! i) ''type'') = Inr z" by blast
  from Suc have k: "k = length ts - Suc i" by simp
  have drop: "drop i ts = ts ! i # drop (Suc i) ts"
    using i by (simp add: Cons_nth_drop_Suc)
  show ?case
    by (subst trackers_loop.simps, subst trackers_length [OF bid ts])
       (simp add: num_lt_num i tracker_at_array [OF bid ts i]
          getprop_not_nullish [OF nn] z Suc.hyps(1) [OF k] drop
        del: drop_Suc_Cons)
qed

text \<open>
  Claim C8 says that for every present winning bid \<^verbatim>\<open>onBidWon\<close> fires one tracking pixel
  for each tracker of the bid's tracker list whose type code equals 0. The tracker list
  \<^verbatim>\<open>[null, {type: 0, url: ...}]\<close> refutes it: the loop reads \<^verbatim>\<open>bid.trackers[0].type\<close>, a
  property of \<^verbatim>\<open>null\<close>, and throws after the notification request, so that the type-0
  tracker behind it gets no pixel.
\<close>

theorem onBidWon_null_tracker_throws:
  "onBidWon \<lparr>NumberToString = (\<lambda>q. ''0''), StringToNumber = (\<lambda>s. None)\<rparr>
     (JObj [(''bidid'', JStr ''b1''), (''impid'', JStr ''i1''), (''cpm'', JNum 2),
            (''userId'', JStr ''u1''),
            (''trackers'',
               JArr [JNull,
                     JObj [(''type'', JNum 0), (''url'', JStr ''https://t.example/imp'')]])])
   = ([Ajax (BASE_URL @ ''/pb/imp'') JNull
         (Some (JsonObj [(''id'', JsonStr ''b1''), (''impid'', JsonStr ''i1''),
                         (''t'', JsonNum 2)]))
         ''POST''
         [(''Accept-Language'', ''en;q=10''), (''Authorization'', ''Bearer u1'')]],
      Inl TypeError)"
  by (simp add: onBidWon_def obj_literal_def getprop_def lookup_def Let_def gt_zero_def
        trackers_loop.simps num_lt_def tracker_at_def getindex_def)

text \<open>The conversions throw as well: \<^verbatim>\<open>'Bearer ' + bid.userId\<close> on a user id that cannot
  be converted, before any effect, and \<^verbatim>\<open>type == 0\<close> on such a type code, in the middle of
  the loop.\<close>

lemma onBidWon_userId_throws:
  "onBidWon \<lparr>NumberToString = (\<lambda>q. ''0''), StringToNumber = (\<lambda>s. None)\<rparr>
     (JObj [(''bidid'', JStr ''b1''),
            (''userId'', JObj [(''toString'', JNum 5)]),
            (''trackers'', JArr [JObj [(''type'', JNum 0), (''url'', JStr ''u1'')]])])
   = ([], Inl TypeError)"
  by (simp add: onBidWon_def obj_literal_def getprop_def lookup_def)

lemma trackers_loop_type_throws:
  "onBidWon \<lparr>NumberToString = (\<lambda>q. ''0''), StringToNumber = (\<lambda>s. None)\<rparr>
     (JObj [(''userId'', JStr ''u''),
            (''trackers'',
               JArr [JObj [(''type'', JNum 0), (''url'', JStr ''u1'')],
                     JObj [(''type'', JObj [(''toString'', JNum 0)]), (''url'', JStr ''u2'')],
                     JObj [(''type'', JNum 0), (''url'', JStr ''u3'')]])])
   = ([Ajax (BASE_URL @ ''/pb/imp'') JNull (Some (JsonObj [])) ''POST''
         [(''Accept-Language'', ''en;q=10''), (''Authorization'', ''Bearer u'')],
       TriggerPixel (JStr ''u1'')],
      Inl TypeError)"
  by (simp add: onBidWon_def obj_literal_def getprop_def lookup_def Let_def gt_zero_def
        trackers_loop.simps num_lt_def tracker_at_def getindex_def loose_eq_zero_def)

text \<open>
  Claim C8, as amended. For a present winning bid whose tracker list is absent or an array
  of entries that are neither \<^verbatim>\<open>null\<close> nor \<^verbatim>\<open>undefined\<close>, and whose user id and tracker
  type codes can be converted to a primitive (they are no objects with an own property
  \<^verbatim>\<open>toString\<close>), \<^verbatim>\<open>onBidWon\<close> sends its one notification request and then fires one
  tracking pixel for each tracker whose type code passes the code's test \<^verbatim>\<open>type == 0\<close>, in
  list order and at that tracker's URL, and no pixel for any other tracker; it returns
  normally. A numeric type code passes the test exactly when it is 0; the loose comparison
  also lets \<^verbatim>\<open>false\<close> pass, and neither \<^verbatim>\<open>true\<close> nor a missing or \<^verbatim>\<open>null\<close> type code. In
  particular a bid with two trackers of types 0 and 1 causes exactly one pixel, at the URL
  of the type-0 tracker.
\<close>

theorem onBidWon_fires_type0_pixels:
  assumes "truthy bid"
    and "read_prop bid ''trackers'' = JArr trackers
         \<or> \<not> truthy (read_prop bid ''trackers'') \<and> trackers = []"
    and "\<forall>tracker \<in> set trackers.
           \<not> nullish tracker \<and> converts (read_prop tracker ''type'')"
    and "converts (read_prop bid ''userId'')"
  shows "(\<exists>url callback data method headers.
            onBidWon eng bid =
              (Ajax url callback data method headers
                 # map (\<lambda>tracker. TriggerPixel (read_prop tracker ''url''))
                     (filter (\<lambda>tracker. loose_eq_zero eng (read_prop tracker ''type'') = Inr True)
                        trackers),
               Inr ()))
         \<and> (\<forall>n. loose_eq_zero eng (JNum n) = Inr (n = 0))
         \<and> (\<forall>b. loose_eq_zero eng (JBool b) = Inr (\<not> b))
         \<and> loose_eq_zero eng JUndefined = Inr False
         \<and> loose_eq_zero eng JNull = Inr False"
proof -
  from assms(4) obtain bearer where bearer: "ToString eng (read_prop bid ''userId'') = Inr bearer"
    using ToString_converts(1) by blast
  have fired: "\<exists>url callback data method headers.
            onBidWon eng bid =
              (Ajax url callback data method headers
                 # map (\<lambda>tracker. TriggerPixel (read_prop tracker ''url''))
                     (filter (\<lambda>tracker. loose_eq_zero eng (read_prop tracker ''type'') = Inr True)
                        trackers),
               Inr ())"
  proof (cases "truthy (read_prop bid ''trackers'')")
    case False
    with assms(1,2) show ?thesis
      by (auto simp: onBidWon_def obj_literal_def getprop_truthy Let_def bearer)
  next
    case True
    with assms(2) have ts: "read_prop bid ''trackers'' = JArr trackers" by blast
    show ?thesis
    proof (cases "trackers = []")
      case True
      with assms(1) ts show ?thesis
        by (simp add: onBidWon_def obj_literal_def getprop_truthy Let_def bearer
              trackers_length [OF assms(1) ts] gt_zero_num del: getpath.simps)
    next
      case False
      with assms(1) ts show ?thesis
        by (simp add: onBidWon_def obj_literal_def getprop_truthy Let_def bearer
              trackers_length [OF assms(1) ts] gt_zero_num
              trackers_loop_array [OF assms(1) ts assms(3)] del: getpath.simps)
    qed
  qed
  then show ?thesis
    by (simp add: loose_eq_zero_def)
qed

theorem onBidWon_fires_type0_pixels_witness:
  "\<exists>url callback data method headers.
     onBidWon \<lparr>NumberToString = (\<lambda>q. ''0''), StringToNumber = (\<lambda>s. None)\<rparr>
       (JObj [(''bidid'', JStr ''b1''),
              (''trackers'',
                 JArr [JObj [(''type'', JNum 0), (''url'', JStr ''https://t.example/imp'')],
                       JObj [(''type'', JNum 1), (''url'', JStr ''https://t.example/click'')]])])
     = ([Ajax url callback data method headers,
         TriggerPixel (JStr ''https://t.example/imp'')], Inr ())"
  using onBidWon_fires_type0_pixels
    [of "JObj [(''bidid'', JStr ''b1''),
              (''trackers'',
                 JArr [JObj [(''type'', JNum 0), (''url'', JStr ''https://t.example/imp'')],
                       JObj [(''type'', JNum 1), (''url'', JStr ''https://t.example/click'')]])]"
        "[JObj [(''type'', JNum 0), (''url'', JStr ''https://t.example/imp'')],
          JObj [(''type'', JNum 1), (''url'', JStr ''https://t.example/click'')]]"
        "\<lparr>NumberToString = (\<lambda>q. ''0''), StringToNumber = (\<lambda>s. None)\<rparr>"]
  by (simp add: lookup_def loose_eq_zero_def)

section \<open>The user identifier generator\<close>

lemma le_bytes_length: "length (le_bytes k n) = k"
  by (simp add: le_bytes_def)

lemma le_bytes_bound: "b \<in> set (le_bytes k n) \<Longrightarrow> b < 256"
  by (auto simp: le_bytes_def)

lemma digest_bytes_length: "length (digest_bytes st) = 16"
  by (cases st) (simp add: le_bytes_length)

lemma digest_bytes_bound: "b \<in> set (digest_bytes st) \<Longrightarrow> b < 256"
  by (cases st) (auto dest: le_bytes_bound)

lemma hex_digit_lower_hex: "d < 16 \<Longrightarrow> lower_hex (hex_digit d)"
  unfolding hex_digit_def lower_hex_def by (rule nth_mem) simp

lemma hex_byte_lower_hex:
  assumes "b < 256" and "c \<in> set (hex_byte b)"
  shows "lower_hex c"
proof -
  from assms(1) have "b div 16 < 16" by simp
  moreover have "b mod 16 < 16" by simp
  moreover from assms(2) have "c = hex_digit (b div 16) \<or> c = hex_digit (b mod 16)"
    by (simp add: hex_byte_def)
  ultimately show ?thesis
    using hex_digit_lower_hex by blast
qed

lemma hex_string_length: "length (hex_string st) = 32"
proof -
  have "length (concat (map hex_byte bs)) = 2 * length bs" for bs
    by (induction bs) (simp_all add: hex_byte_def)
  then show ?thesis
    by (simp add: hex_string_def digest_bytes_length)
qed

lemma hex_string_lower_hex:
  assumes "c \<in> set (hex_string st)"
  shows "lower_hex c"
proof -
  from assms obtain b where "b \<in> set (digest_bytes st)" and "c \<in> set (hex_byte b)"
    unfolding hex_string_def by auto
  then show ?thesis
    using hex_byte_lower_hex digest_bytes_bound by blast
qed

subsection \<open>Known answers\<close>

text \<open>The digests of the known answers, computed step by step: one block for \<^verbatim>\<open>abc\<close>, two
  blocks for each user agent.\<close>

lemma replicate_numeral_step: "replicate (numeral k) x = x # replicate (pred_numeral k) x"
  by (simp add: numeral_eq_Suc)

lemma md5_blocks_step:
  "64 \<le> length bs \<Longrightarrow> md5_blocks st bs = md5_blocks (md5_block st (take 64 bs)) (drop 64 bs)"
  by (subst md5_blocks.simps) simp

lemma md5_blocks_done: "length bs < 64 \<Longrightarrow> md5_blocks st bs = st"
  by (subst md5_blocks.simps) simp

lemma md5_abc_pad:
  "md5_pad (map of_char
      ''abc'') =
     [97, 98, 99, 128, 0, 0, 0, 0, 0, 0, 0, 0, 0, 0, 0, 0, 0, 0, 0, 0, 0,
      0, 0, 0, 0, 0, 0, 0, 0, 0, 0, 0, 0, 0, 0, 0, 0, 0, 0, 0, 0, 0, 0, 0,
      0, 0, 0, 0, 0, 0, 0, 0, 0, 0, 0, 0, 24, 0, 0, 0, 0, 0, 0, 0]"
  by (simp add: md5_pad_def le_bytes_def upt_rec replicate_numeral_step)

lemma md5_abc_block1:
  "md5_block (0x67452301, 0xefcdab89, 0x98badcfe, 0x10325476)
     [97, 98, 99, 128, 0, 0, 0, 0, 0, 0, 0, 0, 0, 0, 0, 0, 0, 0, 0, 0, 0,
      0, 0, 0, 0, 0, 0, 0, 0, 0, 0, 0, 0, 0, 0, 0, 0, 0, 0, 0, 0, 0, 0, 0,
      0, 0, 0, 0, 0, 0, 0, 0, 0, 0, 0, 0, 24, 0, 0, 0, 0, 0, 0, 0] =
   (0x98500190, 0xb04fd23c, 0x7d3f96d6, 0x727fe128)"
  by (simp add: block_words_def le_word_def rotl32_def md5_F_def md5_g_def md5_K_def md5_S_def
        upt_rec)

lemma md5_abc:
  "hex_string (MD5
      ''abc'') =
     ''900150983cd24fb0d6963f7d28e17f72''"
proof -
  have "MD5
      ''abc'' =
    md5_blocks (0x67452301, 0xefcdab89, 0x98badcfe, 0x10325476)
     [97, 98, 99, 128, 0, 0, 0, 0, 0, 0, 0, 0, 0, 0, 0, 0, 0, 0, 0, 0, 0,
      0, 0, 0, 0, 0, 0, 0, 0, 0, 0, 0, 0, 0, 0, 0, 0, 0, 0, 0, 0, 0, 0, 0,
      0, 0, 0, 0, 0, 0, 0, 0, 0, 0, 0, 0, 24, 0, 0, 0, 0, 0, 0, 0]"
    by (simp only: MD5_def md5_init_def md5_abc_pad)
  also have "\<dots> = md5_blocks (0x98500190, 0xb04fd23c, 0x7d3f96d6, 0x727fe128)
     []"
    by (subst md5_blocks_step) (simp_all add: md5_abc_block1 del: md5_block.simps One_nat_def)
  also have "\<dots> = (0x98500190, 0xb04fd23c, 0x7d3f96d6, 0x727fe128)"
    by (rule md5_blocks_done) simp
  finally show ?thesis
    by (simp add: hex_string_def hex_byte_def hex_digit_def le_bytes_def upt_rec)
qed

lemma md5_trident_pad:
  "md5_pad (map of_char
      ''Mozilla/5.0 (Windows NT 10.0; Trident/7.0; rv:11.0) like Gecko'') =
     [77, 111, 122, 105, 108, 108, 97, 47, 53, 46, 48, 32, 40, 87, 105,
      110, 100, 111, 119, 115, 32, 78, 84, 32, 49, 48, 46, 48, 59, 32, 84,
      114, 105, 100, 101, 110, 116, 47, 55, 46, 48, 59, 32, 114, 118, 58,
      49, 49, 46, 48, 41, 32, 108, 105, 107, 101, 32, 71, 101, 99, 107,
      111, 128, 0, 0, 0, 0, 0, 0, 0, 0, 0, 0, 0, 0, 0, 0, 0, 0, 0, 0, 0, 0,
      0, 0, 0, 0, 0, 0, 0, 0, 0, 0, 0, 0, 0, 0, 0, 0, 0, 0, 0, 0, 0, 0, 0,
      0, 0, 0, 0, 0, 0, 0, 0, 0, 0, 0, 0, 0, 0, 240, 1, 0, 0, 0, 0, 0, 0]"
  by (simp add: md5_pad_def le_bytes_def upt_rec replicate_numeral_step)

lemma md5_trident_block1:
  "md5_block (0x67452301, 0xefcdab89, 0x98badcfe, 0x10325476)
     [77, 111, 122, 105, 108, 108, 97, 47, 53, 46, 48, 32, 40, 87, 105,
      110, 100, 111, 119, 115, 32, 78, 84, 32, 49, 48, 46, 48, 59, 32, 84,
      114, 105, 100, 101, 110, 116, 47, 55, 46, 48, 59, 32, 114, 118, 58,
      49, 49, 46, 48, 41, 32, 108, 105, 107, 101, 32, 71, 101, 99, 107,
      111, 128, 0] =
   (0x1b175673, 0x8c4703cf, 0x6f6ba4ca, 0x674e6cd3)"
  by (simp add: block_words_def le_word_def rotl32_def md5_F_def md5_g_def md5_K_def md5_S_def
        upt_rec)

lemma md5_trident_block2:
  "md5_block (0x1b175673, 0x8c4703cf, 0x6f6ba4ca, 0x674e6cd3)
     [0, 0, 0, 0, 0, 0, 0, 0, 0, 0, 0, 0, 0, 0, 0, 0, 0, 0, 0, 0, 0, 0, 0,
      0, 0, 0, 0, 0, 0, 0, 0, 0, 0, 0, 0, 0, 0, 0, 0, 0, 0, 0, 0, 0, 0, 0,
      0, 0, 0, 0, 0, 0, 0, 0, 0, 0, 240, 1, 0, 0, 0, 0, 0, 0] =
   (0xb430eceb, 0x87d0c9c1, 0x9c9e5bde, 0x2ab67cc0)"
  by (simp add: block_words_def le_word_def rotl32_def md5_F_def md5_g_def md5_K_def md5_S_def
        upt_rec)

lemma md5_trident:
  "hex_string (MD5
      ''Mozilla/5.0 (Windows NT 10.0; Trident/7.0; rv:11.0) like Gecko'') =
     ''ebec30b4c1c9d087de5b9e9cc07cb62a''"
proof -
  have "MD5
      ''Mozilla/5.0 (Windows NT 10.0; Trident/7.0; rv:11.0) like Gecko'' =
    md5_blocks (0x67452301, 0xefcdab89, 0x98badcfe, 0x10325476)
     [77, 111, 122, 105, 108, 108, 97, 47, 53, 46, 48, 32, 40, 87, 105,
      110, 100, 111, 119, 115, 32, 78, 84, 32, 49, 48, 46, 48, 59, 32, 84,
      114, 105, 100, 101, 110, 116, 47, 55, 46, 48, 59, 32, 114, 118, 58,
      49, 49, 46, 48, 41, 32, 108, 105, 107, 101, 32, 71, 101, 99, 107,
      111, 128, 0, 0, 0, 0, 0, 0, 0, 0, 0, 0, 0, 0, 0, 0, 0, 0, 0, 0, 0, 0,
      0, 0, 0, 0, 0, 0, 0, 0, 0, 0, 0, 0, 0, 0, 0, 0, 0, 0, 0, 0, 0, 0, 0,
      0, 0, 0, 0, 0, 0, 0, 0, 0, 0, 0, 0, 0, 0, 240, 1, 0, 0, 0, 0, 0, 0]"
    by (simp only: MD5_def md5_init_def md5_trident_pad)
  also have "\<dots> = md5_blocks (0x1b175673, 0x8c4703cf, 0x6f6ba4ca, 0x674e6cd3)
     [0, 0, 0, 0, 0, 0, 0, 0, 0, 0, 0, 0, 0, 0, 0, 0, 0, 0, 0, 0, 0, 0, 0,
      0, 0, 0, 0, 0, 0, 0, 0, 0, 0, 0, 0, 0, 0, 0, 0, 0, 0, 0, 0, 0, 0, 0,
      0, 0, 0, 0, 0, 0, 0, 0, 0, 0, 240, 1, 0, 0, 0, 0, 0, 0]"
    by (subst md5_blocks_step) (simp_all add: md5_trident_block1 del: md5_block.simps One_nat_def)
  also have "\<dots> = md5_blocks (0xb430eceb, 0x87d0c9c1, 0x9c9e5bde, 0x2ab67cc0)
     []"
    by (subst md5_blocks_step) (simp_all add: md5_trident_block2 del: md5_block.simps One_nat_def)
  also have "\<dots> = (0xb430eceb, 0x87d0c9c1, 0x9c9e5bde, 0x2ab67cc0)"
    by (rule md5_blocks_done) simp
  finally show ?thesis
    by (simp add: hex_string_def hex_byte_def hex_digit_def le_bytes_def upt_rec)
qed

lemma md5_chrome_pad:
  "md5_pad (map of_char
      ''Mozilla/5.0 (X11; Linux x86_64) AppleWebKit/537.36 (KHTML, like Gecko) Chrome/120.0.0.0 Safari/537.36'') =
     [77, 111, 122, 105, 108, 108, 97, 47, 53, 46, 48, 32, 40, 88, 49, 49,
      59, 32, 76, 105, 110, 117, 120, 32, 120, 56, 54, 95, 54, 52, 41, 32,
      65, 112, 112, 108, 101, 87, 101, 98, 75, 105, 116, 47, 53, 51, 55,
      46, 51, 54, 32, 40, 75, 72, 84, 77, 76, 44, 32, 108, 105, 107, 101,
      32, 71, 101, 99, 107, 111, 41, 32, 67, 104, 114, 111, 109, 101, 47,
      49, 50, 48, 46, 48, 46, 48, 46, 48, 32, 83, 97, 102, 97, 114, 105,
      47, 53, 51, 55, 46, 51, 54, 128, 0, 0, 0, 0, 0, 0, 0, 0, 0, 0, 0, 0,
      0, 0, 0, 0, 0, 0, 40, 3, 0, 0, 0, 0, 0, 0]"
  by (simp add: md5_pad_def le_bytes_def upt_rec replicate_numeral_step)

lemma md5_chrome_block1:
  "md5_block (0x67452301, 0xefcdab89, 0x98badcfe, 0x10325476)
     [77, 111, 122, 105, 108, 108, 97, 47, 53, 46, 48, 32, 40, 88, 49, 49,
      59, 32, 76, 105, 110, 117, 120, 32, 120, 56, 54, 95, 54, 52, 41, 32,
      65, 112, 112, 108, 101, 87, 101, 98, 75, 105, 116, 47, 53, 51, 55,
      46, 51, 54, 32, 40, 75, 72, 84, 77, 76, 44, 32, 108, 105, 107, 101,
      32] =
   (0x216918d0, 0x4aa678f6, 0xec1f6792, 0x645b9d56)"
  by (simp add: block_words_def le_word_def rotl32_def md5_F_def md5_g_def md5_K_def md5_S_def
        upt_rec)

lemma md5_chrome_block2:
  "md5_block (0x216918d0, 0x4aa678f6, 0xec1f6792, 0x645b9d56)
     [71, 101, 99, 107, 111, 41, 32, 67, 104, 114, 111, 109, 101, 47, 49,
      50, 48, 46, 48, 46, 48, 46, 48, 32, 83, 97, 102, 97, 114, 105, 47,
      53, 51, 55, 46, 51, 54, 128, 0, 0, 0, 0, 0, 0, 0, 0, 0, 0, 0, 0, 0,
      0, 0, 0, 0, 0, 40, 3, 0, 0, 0, 0, 0, 0] =
   (0x5807e54b, 0xebc9df24, 0x2f96eafc, 0x7c098831)"
  by (simp add: block_words_def le_word_def rotl32_def md5_F_def md5_g_def md5_K_def md5_S_def
        upt_rec)

lemma md5_chrome:
  "hex_string (MD5
      ''Mozilla/5.0 (X11; Linux x86_64) AppleWebKit/537.36 (KHTML, like Gecko) Chrome/120.0.0.0 Safari/537.36'') =
     ''4be5075824dfc9ebfcea962f3188097c''"
proof -
  have "MD5
      ''Mozilla/5.0 (X11; Linux x86_64) AppleWebKit/537.36 (KHTML, like Gecko) Chrome/120.0.0.0 Safari/537.36'' =
    md5_blocks (0x67452301, 0xefcdab89, 0x98badcfe, 0x10325476)
     [77, 111, 122, 105, 108, 108, 97, 47, 53, 46, 48, 32, 40, 88, 49, 49,
      59, 32, 76, 105, 110, 117, 120, 32, 120, 56, 54, 95, 54, 52, 41, 32,
      65, 112, 112, 108, 101, 87, 101, 98, 75, 105, 116, 47, 53, 51, 55,
      46, 51, 54, 32, 40, 75, 72, 84, 77, 76, 44, 32, 108, 105, 107, 101,
      32, 71, 101, 99, 107, 111, 41, 32, 67, 104, 114, 111, 109, 101, 47,
      49, 50, 48, 46, 48, 46, 48, 46, 48, 32, 83, 97, 102, 97, 114, 105,
      47, 53, 51, 55, 46, 51, 54, 128, 0, 0, 0, 0, 0, 0, 0, 0, 0, 0, 0, 0,
      0, 0, 0, 0, 0, 0, 40, 3, 0, 0, 0, 0, 0, 0]"
    by (simp only: MD5_def md5_init_def md5_chrome_pad)
  also have "\<dots> = md5_blocks (0x216918d0, 0x4aa678f6, 0xec1f6792, 0x645b9d56)
     [71, 101, 99, 107, 111, 41, 32, 67, 104, 114, 111, 109, 101, 47, 49,
      50, 48, 46, 48, 46, 48, 46, 48, 32, 83, 97, 102, 97, 114, 105, 47,
      53, 51, 55, 46, 51, 54, 128, 0, 0, 0, 0, 0, 0, 0, 0, 0, 0, 0, 0, 0,
      0, 0, 0, 0, 0, 40, 3, 0, 0, 0, 0, 0, 0]"
    by (subst md5_blocks_step) (simp_all add: md5_chrome_block1 del: md5_block.simps One_nat_def)
  also have "\<dots> = md5_blocks (0x5807e54b, 0xebc9df24, 0x2f96eafc, 0x7c098831)
     []"
    by (subst md5_blocks_step) (simp_all add: md5_chrome_block2 del: md5_block.simps One_nat_def)
  also have "\<dots> = (0x5807e54b, 0xebc9df24, 0x2f96eafc, 0x7c098831)"
    by (rule md5_blocks_done) simp
  finally show ?thesis
    by (simp add: hex_string_def hex_byte_def hex_digit_def le_bytes_def upt_rec)
qed

lemma md5_known_answers_hold:
  "\<forall>(agent, digest) \<in> set md5_known_answers. hex_string (MD5 agent) = digest"
  by (simp add: md5_known_answers_def md5_abc md5_trident md5_chrome)

text \<open>
  Claim C10. \<^verbatim>\<open>generateUserId\<close> returns the MD5 digest of the user-agent string rendered
  as hex: for the user agents of the known answers it is the digest that RFC 1321 and
  any MD5 tool give. It is a function of the user-agent string alone, so two calls in
  environments with the same user agent return the same value, and its result is a
  non-empty string of exactly 32 lowercase hexadecimal digits.
\<close>

theorem generateUserId_stable_hex:
  "generateUserId e = hex_string (MD5 (userAgent e))
   \<and> (\<forall>(agent, digest) \<in> set md5_known_answers.
         userAgent e = agent \<longrightarrow> generateUserId e = digest)
   \<and> generateUserId e \<noteq> []
   \<and> length (generateUserId e) = 32
   \<and> (\<forall>c \<in> set (generateUserId e). lower_hex c)
   \<and> (userAgent e = userAgent e' \<longrightarrow> generateUserId e = generateUserId e')"
proof -
  have "length (generateUserId e) = 32"
    by (simp add: generateUserId_def hex_string_length)
  moreover from this have "generateUserId e \<noteq> []"
    by auto
  moreover have "\<forall>(agent, digest) \<in> set md5_known_answers.
         userAgent e = agent \<longrightarrow> generateUserId e = digest"
    using md5_known_answers_hold by (auto simp: generateUserId_def)
  ultimately show ?thesis
    by (simp add: generateUserId_def hex_string_lower_hex)
qed

theorem generateUserId_stable_hex_witness:
  "generateUserId
      \<lparr>screen_width = 1920, screen_height = 1080,
       userAgent = ''Mozilla/5.0 (X11; Linux x86_64) AppleWebKit/537.36 (KHTML, like Gecko) Chrome/120.0.0.0 Safari/537.36'',
       languages = None, language = None, userLanguage = None, getDNT = False\<rparr>
     = ''4be5075824dfc9ebfcea962f3188097c''
   \<and> generateUserId
      \<lparr>screen_width = 1920, screen_height = 1080,
       userAgent = ''Mozilla/5.0 (X11; Linux x86_64) AppleWebKit/537.36 (KHTML, like Gecko) Chrome/120.0.0.0 Safari/537.36'',
       languages = None, language = None, userLanguage = None, getDNT = False\<rparr>
     = generateUserId
      \<lparr>screen_width = 800, screen_height = 600,
       userAgent = ''Mozilla/5.0 (X11; Linux x86_64) AppleWebKit/537.36 (KHTML, like Gecko) Chrome/120.0.0.0 Safari/537.36'',
       languages = Some [''de-DE''], language = Some ''de'', userLanguage = None,
       getDNT = True\<rparr>
   \<and> generateUserId
      \<lparr>screen_width = 1920, screen_height = 1080, userAgent = ''abc'',
       languages = None, language = None, userLanguage = None, getDNT = False\<rparr>
     = ''900150983cd24fb0d6963f7d28e17f72''"
proof -
  let ?e = "\<lparr>screen_width = 1920, screen_height = 1080,
       userAgent = ''Mozilla/5.0 (X11; Linux x86_64) AppleWebKit/537.36 (KHTML, like Gecko) Chrome/120.0.0.0 Safari/537.36'',
       languages = None, language = None, userLanguage = None, getDNT = False\<rparr>"
  let ?e' = "\<lparr>screen_width = 800, screen_height = 600,
       userAgent = ''Mozilla/5.0 (X11; Linux x86_64) AppleWebKit/537.36 (KHTML, like Gecko) Chrome/120.0.0.0 Safari/537.36'',
       languages = Some [''de-DE''], language = Some ''de'', userLanguage = None,
       getDNT = True\<rparr>"
  let ?abc = "\<lparr>screen_width = 1920, screen_height = 1080, userAgent = ''abc'',
       languages = None, language = None, userLanguage = None, getDNT = False\<rparr>"
  have same: "userAgent ?e = userAgent ?e'"
    by simp
  note at_chrome = generateUserId_stable_hex [of ?e ?e']
  have known: "\<forall>(agent, digest) \<in> set md5_known_answers.
         userAgent ?e = agent \<longrightarrow> generateUserId ?e = digest"
    using at_chrome by (elim conjE)
  have stable: "userAgent ?e = userAgent ?e' \<longrightarrow> generateUserId ?e = generateUserId ?e'"
    using at_chrome by (elim conjE)
  from known have chrome: "generateUserId ?e = ''4be5075824dfc9ebfcea962f3188097c''"
    by (simp add: md5_known_answers_def)
  note at_abc = generateUserId_stable_hex [of ?abc ?abc]
  have "\<forall>(agent, digest) \<in> set md5_known_answers.
         userAgent ?abc = agent \<longrightarrow> generateUserId ?abc = digest"
    using at_abc by (elim conjE)
  then have abc: "generateUserId ?abc = ''900150983cd24fb0d6963f7d28e17f72''"
    by (simp add: md5_known_answers_def)
  from same stable have eq: "generateUserId ?e = generateUserId ?e'"
    by (rule rev_mp)
  show ?thesis
    using chrome eq abc by (intro conjI)
qed

section \<open>Objects through JSON\<close>

lemma lookup_Nil: "lookup [] k = JUndefined"
  by (simp add: lookup_def)

lemma lookup_Cons: "lookup ((k', v) # fs) k = (if k = k' then v else lookup fs k)"
  by (simp add: lookup_def)

lemma lookup_upd_field: "lookup (upd_field fs k v) k' = (if k' = k then v else lookup fs k')"
  by (induction fs) (auto simp: lookup_def)

lemma key_in: "(k, v) \<in> set fs \<Longrightarrow> k \<in> fst ` set fs"
  by force

lemma map_fst_upd_field:
  "map fst (upd_field fs k v) = (if k \<in> fst ` set fs then map fst fs else map fst fs @ [k])"
  by (induction fs) (auto dest: key_in)

lemma keys_upd_field: "fst ` set (upd_field fs k v) = insert k (fst ` set fs)"
proof -
  have "set (map fst (upd_field fs k v)) = insert k (set (map fst fs))"
    by (simp only: map_fst_upd_field) auto
  then show ?thesis by simp
qed

lemma distinct_upd_field:
  "distinct (map fst fs) \<Longrightarrow> distinct (map fst (upd_field fs k v))"
  by (simp add: map_fst_upd_field)

lemma upd_field_fresh: "k \<notin> fst ` set fs \<Longrightarrow> upd_field fs k v = fs @ [(k, v)]"
  by (induction fs) auto

lemma lookup_parse_fields:
  "lookup (parse_fields acc js) k =
     (case map_of (rev js) k of None \<Rightarrow> lookup acc k | Some j \<Rightarrow> JSON_parse j)"
proof (induction js arbitrary: acc)
  case Nil
  then show ?case by simp
next
  case (Cons f js)
  obtain k' j where f: "f = (k', j)" by (cases f)
  show ?case
    by (simp add: f Cons.IH lookup_upd_field map_add_def split: option.splits)
qed

lemma keys_parse_fields:
  "fst ` set (parse_fields acc js) = fst ` set acc \<union> fst ` set js"
proof (induction js arbitrary: acc)
  case Nil
  then show ?case by simp
next
  case (Cons f js)
  obtain k' j where f: "f = (k', j)" by (cases f)
  show ?case
    by (simp add: f Cons.IH keys_upd_field)
qed

lemma keys_stringify_fields:
  "k \<in> fst ` set (stringify_fields fs)
     \<longleftrightarrow> (\<exists>v. (k, v) \<in> set fs \<and> JSON_stringify v \<noteq> None)"
proof (induction fs)
  case Nil
  then show ?case by simp
next
  case (Cons f fs)
  obtain k' v' where f: "f = (k', v')" by (cases f)
  show ?case
    using Cons.IH by (auto simp: f image_iff split: option.splits)
qed

lemma keys_stringify_subset:
  "k \<in> fst ` set (stringify_fields fs) \<Longrightarrow> k \<in> fst ` set fs"
  unfolding keys_stringify_fields by force

lemma distinct_stringify_fields:
  "distinct (map fst fs) \<Longrightarrow> distinct (map fst (stringify_fields fs))"
proof (induction fs)
  case Nil
  then show ?case by simp
next
  case (Cons f fs)
  obtain k' v' where f: "f = (k', v')" by (cases f)
  from Cons.prems have "k' \<notin> fst ` set fs" by (simp add: f)
  then have "k' \<notin> fst ` set (stringify_fields fs)"
    using keys_stringify_subset by blast
  with Cons show ?case
    by (simp add: f split: option.splits)
qed

lemma map_of_stringify_fields:
  "distinct (map fst fs) \<Longrightarrow>
   map_of (stringify_fields fs) k =
     (case map_of fs k of None \<Rightarrow> None | Some v \<Rightarrow> JSON_stringify v)"
proof (induction fs)
  case Nil
  then show ?case by simp
next
  case (Cons f fs)
  obtain k' v' where f: "f = (k', v')" by (cases f)
  from Cons.prems have "k' \<notin> fst ` set fs" by (simp add: f)
  then have "k' \<notin> fst ` set (stringify_fields fs)"
    using keys_stringify_subset by blast
  then have none: "map_of (stringify_fields fs) k' = None"
    by (simp add: map_of_eq_None_iff)
  from Cons show ?case
    by (auto simp: f none split: option.splits)
qed

lemma map_of_rev_distinct:
  "distinct (map fst xs) \<Longrightarrow> map_of (rev xs) k = map_of xs k"
proof (induction xs)
  case Nil
  then show ?case by simp
next
  case (Cons x xs)
  obtain a b where x: "x = (a, b)" by (cases x)
  from Cons.prems have "a \<notin> fst ` set xs" by (simp add: x)
  then have none: "map_of xs a = None"
    by (simp add: map_of_eq_None_iff)
  from Cons show ?case
    by (auto simp: x none map_add_def split: option.splits)
qed

lemma lookup_through_json:
  assumes "distinct (map fst fs)"
  shows "lookup (parse_fields [] (stringify_fields fs)) k = through_json (lookup fs k)"
proof -
  have "map_of (rev (stringify_fields fs)) k = map_of (stringify_fields fs) k"
    using distinct_stringify_fields [OF assms] by (rule map_of_rev_distinct)
  then have "lookup (parse_fields [] (stringify_fields fs)) k =
      (case map_of (stringify_fields fs) k of None \<Rightarrow> JUndefined | Some j \<Rightarrow> JSON_parse j)"
    unfolding lookup_parse_fields by (simp add: lookup_def split: option.splits)
  then show ?thesis
    by (simp add: map_of_stringify_fields [OF assms] through_json_def lookup_def
          split: option.splits)
qed

lemma read_prop_through_json_obj:
  "distinct (map fst fs) \<Longrightarrow>
   read_prop (through_json (JObj fs)) k = through_json (lookup fs k)"
  by (simp add: through_json_def lookup_through_json)

lemma through_json_obj:
  "through_json (JObj fs) = JObj (parse_fields [] (stringify_fields fs))"
  by (simp add: through_json_def)

lemma has_own_through_json:
  "has_own (through_json (JObj fs)) k \<Longrightarrow> k \<in> fst ` set fs"
  by (simp add: through_json_obj keys_parse_fields keys_stringify_subset)

lemma getprop_parsed:
  assumes "distinct (map fst fs)"
  shows "getprop (JSON_parse (JsonObj (stringify_fields fs))) k = Inr (through_json (lookup fs k))"
  by (simp add: getprop_def lookup_through_json [OF assms])

text \<open>A JSON value survives the round trip unchanged.\<close>

lemma json_value_roundtrip:
  "json_value v \<longrightarrow> (\<exists>j. JSON_stringify v = Some j \<and> JSON_parse j = v)"
  "json_values xs \<longrightarrow> parse_elems (stringify_elems xs) = xs"
  "json_fields fs \<longrightarrow>
     (\<forall>acc. distinct (map fst acc @ map fst fs) \<longrightarrow>
        parse_fields acc (stringify_fields fs) = acc @ fs)"
proof (induction v and xs and fs rule: json_value_json_values_json_fields.induct)
  case (7 fs)
  then show ?case by auto
next
  case (9 x xs)
  then show ?case by auto
next
  case (11 k v fs)
  then show ?case by (auto simp: upd_field_fresh)
qed simp_all

lemma through_json_value: "json_value v \<Longrightarrow> through_json v = v"
  using json_value_roundtrip(1) [of v] by (auto simp: through_json_def)

section \<open>The device resolver\<close>

text \<open>When the device override is unset or an object, \<^verbatim>\<open>getDevice\<close> returns, and it never
  rebinds a configuration topic.\<close>

lemma slot_get_ok: "holds_properties d \<Longrightarrow> \<exists>v. slot_get h d k = Inr v"
  by (cases "(h, d, k)" rule: slot_get.cases) (auto simp: getprop_def elim: holds_properties.elims)

lemma slot_set_ok:
  "holds_properties d \<Longrightarrow>
   \<exists>d' h'. slot_set d k v h = (Inr d', h') \<and> holds_properties d' \<and> config h' = config h"
  by (cases "(d, k, v, h)" rule: slot_set.cases) auto

lemma fill_ok:
  assumes "holds_properties d"
  shows "\<exists>d' h'. fill k (Inr x) d h = (Inr d', h') \<and> holds_properties d' \<and> config h' = config h"
proof -
  from slot_get_ok [OF assms] obtain cur where "slot_get h d k = Inr cur" by blast
  then show ?thesis
    using slot_set_ok [OF assms, of k cur h] slot_set_ok [OF assms, of k x h]
    by (simp add: fill_def)
qed

lemma fill_dnt_ok:
  assumes "holds_properties d"
  shows "\<exists>d' h'. fill_dnt e d h = (Inr d', h') \<and> holds_properties d' \<and> config h' = config h"
proof -
  from slot_get_ok [OF assms] obtain cur where "slot_get h d ''dnt'' = Inr cur" by blast
  then show ?thesis
    using slot_set_ok [OF assms] by (simp add: fill_dnt_def)
qed

lemma getLanguage_ok: "\<exists>s. getLanguage e = Inr (JStr s)"
proof -
  have "v = JUndefined \<or> (\<exists>s. v = JStr s)"
    if "v = or_js (or_js (and_js langs (getidx langs 0)) (opt_str a)) (opt_str b)"
      and "langs = (case ls of None \<Rightarrow> JUndefined | Some l \<Rightarrow> JArr (map JStr l))"
    for v langs a b ls
    using that
    by (auto simp: or_js_def and_js_def opt_str_def split: option.splits if_splits)
  from this [OF refl refl, of "languages e" "language e" "userLanguage e"]
  show ?thesis
    by (auto simp: getLanguage_def Let_def)
qed

lemma getDevice_ok:
  assumes "truthy_slot (getConfig h ''device'') \<longrightarrow> holds_properties (getConfig h ''device'')"
  shows "\<exists>d h'. getDevice e h = (Inr d, h') \<and> config h' = config h"
proof -
  define d0 where "d0 = (if truthy_slot (getConfig h ''device'') then getConfig h ''device''
                          else Value (JObj []))"
  have d0: "holds_properties d0"
    using assms by (simp add: d0_def)
  from fill_ok [OF d0] obtain d1 h1
    where 1: "fill ''w'' (Inr (JNum (screen_width e))) d0 h = (Inr d1, h1)"
      "holds_properties d1" "config h1 = config h" by blast
  from fill_ok [OF 1(2)] obtain d2 h2
    where 2: "fill ''h'' (Inr (JNum (screen_height e))) d1 h1 = (Inr d2, h2)"
      "holds_properties d2" "config h2 = config h1" by blast
  from fill_ok [OF 2(2)] obtain d3 h3
    where 3: "fill ''ua'' (Inr (JStr (userAgent e))) d2 h2 = (Inr d3, h3)"
      "holds_properties d3" "config h3 = config h2" by blast
  from getLanguage_ok obtain s where s: "getLanguage e = Inr (JStr s)" by blast
  from fill_ok [OF 3(2)] obtain d4 h4
    where 4: "fill ''language'' (Inr (JStr s)) d3 h3 = (Inr d4, h4)"
      "holds_properties d4" "config h4 = config h3" by blast
  from fill_dnt_ok [OF 4(2)] obtain d5 h5
    where 5: "fill_dnt e d4 h4 = (Inr d5, h5)"
      "holds_properties d5" "config h5 = config h4" by blast
  have "getDevice e h = (Inr d5, h5)"
    by (simp add: getDevice_def Let_def bind_js_def d0_def [symmetric] 1 2 3 4 5 s)
  with 1 2 3 4 5 show ?thesis by simp
qed

section \<open>The request builder\<close>

lemma valid_bid_facts:
  assumes "snd (isBidRequestValid bid) = Inr True"
  shows "truthy bid" "truthy (read_prop bid ''params'')"
    "truthy (read_prop (read_prop bid ''params'') ''placementId'')"
  using assms
  by (auto simp: isBidRequestValid_def getprop_def Let_def split: if_splits sum.splits)

lemma getConfig_cong: "config h' = config h \<Longrightarrow> getConfig h' k = getConfig h k"
  by (simp add: getConfig_def)

lemma read_prop_falsy: "\<not> truthy v \<Longrightarrow> k \<noteq> ''length'' \<Longrightarrow> read_prop v k = JUndefined"
  by (cases v) simp_all

lemma deepAccess_one: "k \<noteq> ''length'' \<Longrightarrow> deepAccess v [k] = read_prop v k"
  by (simp add: read_prop_falsy)

lemma buildBidRequest_shape:
  assumes valid: "snd (isBidRequestValid bid) = Inr True"
    and ctx: "\<not> nullish bidderRequest"
    and dev: "truthy_slot (getConfig h ''device'') \<longrightarrow> holds_properties (getConfig h ''device'')"
  shows "\<exists>r h' device.
           buildBidRequest e bid bidderRequest h = (Inr r, h')
           \<and> req_data r =
               Some (JsonObj (stringify_fields
                 [(''id'', read_prop bid ''bidId''),
                  (''tmax'', read_prop bidderRequest ''timeout''),
                  (''placements'', JArr [read_prop (read_prop bid ''params'') ''placementId'']),
                  (''test'', JNum (if truthy_slot (getConfig h ''debug'') then 1 else 0)),
                  (''device'', device),
                  (''at'', JNum 2),
                  (''user'', JObj (user_object h bidderRequest))]))"
proof -
  note facts = valid_bid_facts [OF valid]
  from getDevice_ok [OF dev] obtain d h'
    where d: "getDevice e h = (Inr d, h')" and cfg: "config h' = config h" by blast
  have coppa: "getConfig h' ''coppa'' = getConfig h ''coppa''"
    using cfg by (rule getConfig_cong)
  let ?payload = "JObj
                 [(''id'', read_prop bid ''bidId''),
                  (''tmax'', read_prop bidderRequest ''timeout''),
                  (''placements'', JArr [read_prop (read_prop bid ''params'') ''placementId'']),
                  (''test'', JNum (if truthy_slot (getConfig h ''debug'') then 1 else 0)),
                  (''device'', snapshot h' d),
                  (''at'', JNum 2),
                  (''user'', JObj (user_object h bidderRequest))]"
  let ?r = "\<lparr>req_method = ''POST'',
             req_url = BASE_URL @ ''/pb/req'',
             req_data = JSON_stringify ?payload,
             contentType = ''application/json'',
             withCredentials = False,
             customHeaders =
               [(''Accept-Language'', ''en;q=10''),
                (''Authorization'', ''Bearer '' @ getUserId e bid)],
             originalBidRequest = bid\<rparr>"
  have "buildBidRequest e bid bidderRequest h = (Inr ?r, h')"
    using facts ctx
    by (simp add: buildBidRequest_def Let_def d getprop_def truthy_not_nullish arr_literal1_def
          user_object_def coppa
        del: stringify_fields.simps JSON_stringify.simps upd_field.simps deepAccess.simps)
  moreover have "req_data ?r = Some (JsonObj (stringify_fields
                 [(''id'', read_prop bid ''bidId''),
                  (''tmax'', read_prop bidderRequest ''timeout''),
                  (''placements'', JArr [read_prop (read_prop bid ''params'') ''placementId'']),
                  (''test'', JNum (if truthy_slot (getConfig h ''debug'') then 1 else 0)),
                  (''device'', snapshot h' d),
                  (''at'', JNum 2),
                  (''user'', JObj (user_object h bidderRequest))]))"
    by (simp del: stringify_fields.simps)
  ultimately show ?thesis by blast
qed

lemma user_object_distinct: "distinct (map fst (user_object h bidderRequest))"
  by (simp add: user_object_def Let_def distinct_upd_field del: upd_field.simps deepAccess.simps)

lemma user_object_coppa:
  "lookup (user_object h bidderRequest) ''coppa''
     = JNum (if truthy_slot (getConfig h ''coppa'') then 1 else 0)"
  by (simp add: user_object_def Let_def lookup_upd_field lookup_Cons lookup_Nil
        del: upd_field.simps deepAccess.simps)

lemma user_object_gdpr:
  assumes "truthy (read_prop bidderRequest ''gdprConsent'')"
    and "truthy (read_prop (read_prop bidderRequest ''gdprConsent'') ''gdprApplies'')"
  shows "lookup (user_object h bidderRequest) ''gdpr'' = JNum 1"
    and "lookup (user_object h bidderRequest) ''consent''
           = read_prop (read_prop bidderRequest ''gdprConsent'') ''consentString''"
  using assms
  by (simp_all add: user_object_def Let_def lookup_upd_field lookup_Cons lookup_Nil
        deepAccess_one del: upd_field.simps deepAccess.simps)

lemma user_object_usp:
  assumes "truthy (read_prop bidderRequest ''uspConsent'')"
  shows "lookup (user_object h bidderRequest) ''usp'' = read_prop bidderRequest ''uspConsent''"
  using assms
  by (simp add: user_object_def Let_def lookup_upd_field lookup_Cons lookup_Nil
        deepAccess_one del: upd_field.simps deepAccess.simps)

lemma user_object_no_gdpr:
  assumes "\<not> truthy (read_prop bidderRequest ''gdprConsent'')"
  shows "''gdpr'' \<notin> fst ` set (user_object h bidderRequest)"
    and "''consent'' \<notin> fst ` set (user_object h bidderRequest)"
  using assms
  by (simp_all add: user_object_def Let_def keys_upd_field deepAccess_one
        del: upd_field.simps deepAccess.simps)

lemma user_object_no_usp:
  assumes "\<not> truthy (read_prop bidderRequest ''uspConsent'')"
  shows "''usp'' \<notin> fst ` set (user_object h bidderRequest)"
  using assms
  by (simp add: user_object_def Let_def keys_upd_field deepAccess_one
        del: upd_field.simps deepAccess.simps)

lemma sample_bid_valid: "snd (isBidRequestValid sample_bid) = Inr True"
  by (simp add: isBidRequestValid_def sample_bid_def getprop_def lookup_def)

text \<open>
  Claim C4. For a valid bid request and an auction context, with a device override that
  is unset or an object and with an id, a timeout and a placement id that JSON can carry,
  \<^verbatim>\<open>buildBidRequest\<close> returns a request whose serialized body, when parsed, has \<^verbatim>\<open>id\<close> equal
  to the bid request's \<^verbatim>\<open>bidId\<close>, \<^verbatim>\<open>tmax\<close> equal to the auction timeout, \<^verbatim>\<open>placements\<close> equal
  to the one-element list of the placement id, \<^verbatim>\<open>test\<close> equal to 1 if the debug flag of the
  configuration is set and 0 otherwise, \<^verbatim>\<open>at\<close> equal to 2, and \<^verbatim>\<open>user.coppa\<close> equal to 1 if
  the COPPA flag is set and 0 otherwise.
\<close>

theorem buildBidRequest_payload:
  assumes "snd (isBidRequestValid bid) = Inr True"
    and "\<not> nullish bidderRequest"
    and "truthy_slot (getConfig h ''device'') \<longrightarrow> holds_properties (getConfig h ''device'')"
    and "json_value (read_prop bid ''bidId'')"
    and "json_value (read_prop bidderRequest ''timeout'')"
    and "json_value (read_prop (read_prop bid ''params'') ''placementId'')"
  shows "\<exists>r h' doc.
           buildBidRequest e bid bidderRequest h = (Inr r, h')
           \<and> req_data r = Some doc
           \<and> getprop (JSON_parse doc) ''id'' = Inr (read_prop bid ''bidId'')
           \<and> getprop (JSON_parse doc) ''tmax'' = Inr (read_prop bidderRequest ''timeout'')
           \<and> getprop (JSON_parse doc) ''placements''
               = Inr (JArr [read_prop (read_prop bid ''params'') ''placementId''])
           \<and> getprop (JSON_parse doc) ''test''
               = Inr (JNum (if truthy_slot (getConfig h ''debug'') then 1 else 0))
           \<and> getprop (JSON_parse doc) ''at'' = Inr (JNum 2)
           \<and> getpath (JSON_parse doc) [''user'', ''coppa'']
               = Inr (JNum (if truthy_slot (getConfig h ''coppa'') then 1 else 0))"
proof -
  from buildBidRequest_shape [OF assms(1-3)] obtain r h' device
    where r: "buildBidRequest e bid bidderRequest h = (Inr r, h')"
      and doc: "req_data r =
               Some (JsonObj (stringify_fields
                 [(''id'', read_prop bid ''bidId''),
                  (''tmax'', read_prop bidderRequest ''timeout''),
                  (''placements'', JArr [read_prop (read_prop bid ''params'') ''placementId'']),
                  (''test'', JNum (if truthy_slot (getConfig h ''debug'') then 1 else 0)),
                  (''device'', device),
                  (''at'', JNum 2),
                  (''user'', JObj (user_object h bidderRequest))]))"
      (is "_ = Some (JsonObj (stringify_fields ?fs))")
    by blast
  have keys: "distinct (map fst ?fs)" by simp
  note read = getprop_parsed [OF keys]
  have placements: "json_value (JArr [read_prop (read_prop bid ''params'') ''placementId''])"
    using assms(6) by simp
  have user: "getpath (JSON_parse (JsonObj (stringify_fields ?fs))) [''user'', ''coppa'']
      = Inr (JNum (if truthy_slot (getConfig h ''coppa'') then 1 else 0))"
    by (simp only: getpath.simps read)
       (simp add: lookup_Cons lookup_Nil through_json_obj getprop_def
          lookup_through_json [OF user_object_distinct] user_object_coppa through_json_def
        del: stringify_fields.simps parse_fields.simps)
  have "getprop (JSON_parse (JsonObj (stringify_fields ?fs))) ''id'' = Inr (read_prop bid ''bidId'')"
    "getprop (JSON_parse (JsonObj (stringify_fields ?fs))) ''tmax''
       = Inr (read_prop bidderRequest ''timeout'')"
    "getprop (JSON_parse (JsonObj (stringify_fields ?fs))) ''placements''
       = Inr (JArr [read_prop (read_prop bid ''params'') ''placementId''])"
    "getprop (JSON_parse (JsonObj (stringify_fields ?fs))) ''test''
       = Inr (JNum (if truthy_slot (getConfig h ''debug'') then 1 else 0))"
    "getprop (JSON_parse (JsonObj (stringify_fields ?fs))) ''at'' = Inr (JNum 2)"
    using assms(4,5) placements
    by (simp_all only: read) (simp_all add: lookup_Cons lookup_Nil through_json_value)
  with r doc user show ?thesis by blast
qed

theorem buildBidRequest_payload_witness:
  "\<exists>r h' doc.
     buildBidRequest sample_env sample_bid sample_context sample_host = (Inr r, h')
     \<and> req_data r = Some doc
     \<and> getprop (JSON_parse doc) ''id'' = Inr (JStr ''bid-1'')
     \<and> getprop (JSON_parse doc) ''tmax'' = Inr (JNum 3000)
     \<and> getprop (JSON_parse doc) ''placements'' = Inr (JArr [JStr ''p-1''])
     \<and> getprop (JSON_parse doc) ''test'' = Inr (JNum 1)
     \<and> getprop (JSON_parse doc) ''at'' = Inr (JNum 2)
     \<and> getpath (JSON_parse doc) [''user'', ''coppa''] = Inr (JNum 0)"
proof -
  have ctx: "\<not> nullish sample_context"
    by (simp add: sample_context_def)
  have dev: "truthy_slot (getConfig sample_host ''device'')
               \<longrightarrow> holds_properties (getConfig sample_host ''device'')"
    by (simp add: sample_host_def getConfig_def)
  have id: "json_value (read_prop sample_bid ''bidId'')"
    by (simp add: sample_bid_def lookup_def)
  have tmax: "json_value (read_prop sample_context ''timeout'')"
    by (simp add: sample_context_def lookup_def)
  have pid: "json_value (read_prop (read_prop sample_bid ''params'') ''placementId'')"
    by (simp add: sample_bid_def lookup_def)
  have vals: "read_prop sample_bid ''bidId'' = JStr ''bid-1''"
    "read_prop sample_context ''timeout'' = JNum 3000"
    "read_prop (read_prop sample_bid ''params'') ''placementId'' = JStr ''p-1''"
    "truthy_slot (getConfig sample_host ''debug'')"
    "\<not> truthy_slot (getConfig sample_host ''coppa'')"
    by (simp_all add: sample_bid_def sample_context_def sample_host_def getConfig_def lookup_def)
  from buildBidRequest_payload [OF sample_bid_valid ctx dev id tmax pid, of sample_env]
  show ?thesis
    by (simp only: vals if_True if_False)
qed

text \<open>
  Claim C5. Under the same conditions on the inputs, the parsed payload's \<^verbatim>\<open>user\<close> object
  has \<^verbatim>\<open>gdpr\<close> equal to 1 and \<^verbatim>\<open>consent\<close> equal to the supplied consent string when a GDPR
  consent context is present and its \<^verbatim>\<open>gdprApplies\<close> is true, and has neither field when the
  GDPR context is absent; it has \<^verbatim>\<open>usp\<close> equal to the US-privacy string when a non-empty
  one is supplied, and no \<^verbatim>\<open>usp\<close> field when that string is absent or empty.
\<close>

theorem buildBidRequest_consent:
  assumes "snd (isBidRequestValid bid) = Inr True"
    and "\<not> nullish bidderRequest"
    and "truthy_slot (getConfig h ''device'') \<longrightarrow> holds_properties (getConfig h ''device'')"
  shows "\<exists>r h' doc user.
           buildBidRequest e bid bidderRequest h = (Inr r, h')
           \<and> req_data r = Some doc
           \<and> getprop (JSON_parse doc) ''user'' = Inr user
           \<and> (truthy (read_prop bidderRequest ''gdprConsent'')
                \<and> truthy (read_prop (read_prop bidderRequest ''gdprConsent'') ''gdprApplies'')
              \<longrightarrow> read_prop user ''gdpr'' = JNum 1
                  \<and> (\<forall>s. read_prop (read_prop bidderRequest ''gdprConsent'') ''consentString''
                            = JStr s
                          \<longrightarrow> read_prop user ''consent'' = JStr s))
           \<and> (\<not> truthy (read_prop bidderRequest ''gdprConsent'')
              \<longrightarrow> \<not> has_own user ''gdpr'' \<and> \<not> has_own user ''consent'')
           \<and> (\<forall>s. read_prop bidderRequest ''uspConsent'' = JStr s \<and> s \<noteq> []
                  \<longrightarrow> read_prop user ''usp'' = JStr s)
           \<and> (\<not> truthy (read_prop bidderRequest ''uspConsent'') \<longrightarrow> \<not> has_own user ''usp'')"
proof -
  from buildBidRequest_shape [OF assms] obtain r h' device
    where r: "buildBidRequest e bid bidderRequest h = (Inr r, h')"
      and doc: "req_data r =
               Some (JsonObj (stringify_fields
                 [(''id'', read_prop bid ''bidId''),
                  (''tmax'', read_prop bidderRequest ''timeout''),
                  (''placements'', JArr [read_prop (read_prop bid ''params'') ''placementId'']),
                  (''test'', JNum (if truthy_slot (getConfig h ''debug'') then 1 else 0)),
                  (''device'', device),
                  (''at'', JNum 2),
                  (''user'', JObj (user_object h bidderRequest))]))"
      (is "_ = Some (JsonObj (stringify_fields ?fs))")
    by blast
  let ?uo = "user_object h bidderRequest"
  let ?user = "through_json (JObj ?uo)"
  have keys: "distinct (map fst ?fs)" by simp
  have user: "getprop (JSON_parse (JsonObj (stringify_fields ?fs))) ''user'' = Inr ?user"
    by (simp only: getprop_parsed [OF keys]) (simp add: lookup_Cons)
  have read: "read_prop ?user k = through_json (lookup ?uo k)" for k
    by (rule read_prop_through_json_obj [OF user_object_distinct])
  have gdpr: "read_prop ?user ''gdpr'' = JNum 1
              \<and> (\<forall>s. read_prop (read_prop bidderRequest ''gdprConsent'') ''consentString'' = JStr s
                     \<longrightarrow> read_prop ?user ''consent'' = JStr s)"
    if "truthy (read_prop bidderRequest ''gdprConsent'')"
      and "truthy (read_prop (read_prop bidderRequest ''gdprConsent'') ''gdprApplies'')"
    using user_object_gdpr [OF that, of h]
    by (simp only: read) (simp add: through_json_def)
  have no_gdpr: "\<not> has_own ?user ''gdpr'' \<and> \<not> has_own ?user ''consent''"
    if "\<not> truthy (read_prop bidderRequest ''gdprConsent'')"
    using user_object_no_gdpr [OF that, of h] has_own_through_json by blast
  have usp: "read_prop ?user ''usp'' = JStr s"
    if "read_prop bidderRequest ''uspConsent'' = JStr s" and "s \<noteq> []" for s
  proof -
    from that have "truthy (read_prop bidderRequest ''uspConsent'')" by simp
    from user_object_usp [OF this, of h] that show ?thesis
      by (simp only: read) (simp add: through_json_def)
  qed
  have no_usp: "\<not> has_own ?user ''usp''"
    if "\<not> truthy (read_prop bidderRequest ''uspConsent'')"
    using user_object_no_usp [OF that, of h] has_own_through_json by blast
  from r doc user gdpr no_gdpr usp no_usp show ?thesis
    by (intro exI [of _ r] exI [of _ h'] exI [of _ "JsonObj (stringify_fields ?fs)"]
          exI [of _ ?user]) blast
qed

theorem buildBidRequest_consent_witness:
  "(\<exists>r h' doc user.
      buildBidRequest sample_env sample_bid sample_context sample_host = (Inr r, h')
      \<and> req_data r = Some doc
      \<and> getprop (JSON_parse doc) ''user'' = Inr user
      \<and> read_prop user ''gdpr'' = JNum 1
      \<and> read_prop user ''consent'' = JStr ''CONSENT''
      \<and> read_prop user ''usp'' = JStr ''1YNN'')
   \<and> (\<exists>r h' doc user.
      buildBidRequest sample_env sample_bid plain_context sample_host = (Inr r, h')
      \<and> req_data r = Some doc
      \<and> getprop (JSON_parse doc) ''user'' = Inr user
      \<and> \<not> has_own user ''gdpr'' \<and> \<not> has_own user ''consent'' \<and> \<not> has_own user ''usp'')"
proof -
  have dev: "truthy_slot (getConfig sample_host ''device'')
               \<longrightarrow> holds_properties (getConfig sample_host ''device'')"
    by (simp add: sample_host_def getConfig_def)
  have ctx: "\<not> nullish sample_context" "\<not> nullish plain_context"
    by (simp_all add: sample_context_def plain_context_def)
  have full: "truthy (read_prop sample_context ''gdprConsent'')"
    "truthy (read_prop (read_prop sample_context ''gdprConsent'') ''gdprApplies'')"
    "read_prop (read_prop sample_context ''gdprConsent'') ''consentString'' = JStr ''CONSENT''"
    "read_prop sample_context ''uspConsent'' = JStr ''1YNN''"
    by (simp_all add: sample_context_def lookup_def)
  have plain: "\<not> truthy (read_prop plain_context ''gdprConsent'')"
    "\<not> truthy (read_prop plain_context ''uspConsent'')"
    by (simp_all add: plain_context_def lookup_def)
  from buildBidRequest_consent [OF sample_bid_valid ctx(1) dev, of sample_env] full
  have first: "\<exists>r h' doc user.
      buildBidRequest sample_env sample_bid sample_context sample_host = (Inr r, h')
      \<and> req_data r = Some doc
      \<and> getprop (JSON_parse doc) ''user'' = Inr user
      \<and> read_prop user ''gdpr'' = JNum 1
      \<and> read_prop user ''consent'' = JStr ''CONSENT''
      \<and> read_prop user ''usp'' = JStr ''1YNN''"
    by (elim exE conjE) (intro exI conjI, assumption+, simp_all)
  from buildBidRequest_consent [OF sample_bid_valid ctx(2) dev, of sample_env] plain
  have second: "\<exists>r h' doc user.
      buildBidRequest sample_env sample_bid plain_context sample_host = (Inr r, h')
      \<and> req_data r = Some doc
      \<and> getprop (JSON_parse doc) ''user'' = Inr user
      \<and> \<not> has_own user ''gdpr'' \<and> \<not> has_own user ''consent'' \<and> \<not> has_own user ''usp''"
    by (elim exE conjE) (intro exI conjI, assumption+, simp_all)
  from first second show ?thesis by (rule conjI)
qed

section \<open>Writes to the host's configuration\<close>

text \<open>Without a device override, building requests leaves the host as it was: the
  device object is then the adapter's own.\<close>

lemma slot_set_value:
  "slot_set (Value v) k x h = (r, h') \<Longrightarrow>
   h' = h \<and> (\<forall>d. r = Inr d \<longrightarrow> (\<exists>v'. d = Value v'))"
  by (cases v) auto

lemma fill_value:
  "fill k dflt (Value v) h = (r, h') \<Longrightarrow>
   h' = h \<and> (\<forall>d. r = Inr d \<longrightarrow> (\<exists>v'. d = Value v'))"
  by (auto simp: fill_def split: sum.splits if_splits dest: slot_set_value)

lemma fill_dnt_value:
  "fill_dnt e (Value v) h = (r, h') \<Longrightarrow> h' = h"
  by (auto simp: fill_dnt_def split: sum.splits dest: slot_set_value)

lemma getDevice_no_override:
  assumes "\<not> truthy_slot (getConfig h ''device'')"
  shows "snd (getDevice e h) = h"
  using assms
  by (auto simp: getDevice_def Let_def bind_js_def split: prod.splits sum.splits
        dest!: fill_value fill_dnt_value)

lemma buildBidRequest_no_override:
  assumes "\<not> truthy_slot (getConfig h ''device'')"
  shows "snd (buildBidRequest e bid bidderRequest h) = h"
  using getDevice_no_override [OF assms, of e]
  by (auto simp: buildBidRequest_def Let_def split: sum.splits prod.splits)

lemma buildRequests_no_override:
  assumes "\<not> truthy_slot (getConfig h ''device'')"
  shows "snd (buildRequests e bids bidderRequest h) = h"
proof (induction bids)
  case Nil
  then show ?case by simp
next
  case (Cons bid bids)
  from buildBidRequest_no_override [OF assms, of e bid bidderRequest]
  obtain r where r: "buildBidRequest e bid bidderRequest h = (r, h)"
    by (cases "buildBidRequest e bid bidderRequest h") simp
  from Cons.IH obtain rs where rs: "buildRequests e bids bidderRequest h = (rs, h)"
    by (cases "buildRequests e bids bidderRequest h") simp
  show ?case
    by (simp add: r rs split: sum.splits)
qed

text \<open>
  Claim C1 says that \<^verbatim>\<open>buildRequests\<close> writes nothing to the host's configuration, the
  device-override object included. With the override \<^verbatim>\<open>{w: 300}\<close> configured, one call
  for one valid bid request leaves the configured object with four more properties:
  \<^verbatim>\<open>getDevice\<close> fills \<^verbatim>\<open>h\<close>, \<^verbatim>\<open>ua\<close>, \<^verbatim>\<open>language\<close> and \<^verbatim>\<open>dnt\<close> into the object it obtained
  from the configuration, not into a copy.
\<close>

theorem buildRequests_writes_device_override:
  "heap (snd (buildRequests sample_env [sample_bid] plain_context override_host)) 0
     = [(''w'', JNum 300), (''h'', JNum 1080), (''ua'', JStr ''Mozilla/5.0''),
        (''language'', JStr ''en''), (''dnt'', JNum 0)]
   \<and> heap override_host 0 = [(''w'', JNum 300)]
   \<and> snd (buildRequests sample_env [sample_bid] plain_context override_host) \<noteq> override_host"
proof -
  have dev: "getDevice sample_env override_host =
      (Inr (Ref 0),
       override_host\<lparr>heap := (heap override_host)
          (0 := [(''w'', JNum 300), (''h'', JNum 1080), (''ua'', JStr ''Mozilla/5.0''),
                 (''language'', JStr ''en''), (''dnt'', JNum 0)])\<rparr>)"
    by (simp add: getDevice_def Let_def bind_js_def fill_def fill_dnt_def getConfig_def
          override_host_def sample_env_def getLanguage_def or_js_def and_js_def opt_str_def
          lookup_def)
  have "snd (buildBidRequest sample_env sample_bid plain_context override_host) =
       override_host\<lparr>heap := (heap override_host)
          (0 := [(''w'', JNum 300), (''h'', JNum 1080), (''ua'', JStr ''Mozilla/5.0''),
                 (''language'', JStr ''en''), (''dnt'', JNum 0)])\<rparr>"
    by (simp add: buildBidRequest_def Let_def dev sample_bid_def plain_context_def getprop_def
          arr_literal1_def lookup_def
        del: JSON_stringify.simps deepAccess.simps upd_field.simps)
  then have after: "snd (buildRequests sample_env [sample_bid] plain_context override_host) =
       override_host\<lparr>heap := (heap override_host)
          (0 := [(''w'', JNum 300), (''h'', JNum 1080), (''ua'', JStr ''Mozilla/5.0''),
                 (''language'', JStr ''en''), (''dnt'', JNum 0)])\<rparr>"
    by (auto split: prod.splits sum.splits)
  have before: "heap override_host 0 = [(''w'', JNum 300)]"
    by (simp add: override_host_def)
  from after have "heap (snd (buildRequests sample_env [sample_bid] plain_context override_host)) 0
     = [(''w'', JNum 300), (''h'', JNum 1080), (''ua'', JStr ''Mozilla/5.0''),
        (''language'', JStr ''en''), (''dnt'', JNum 0)]"
    by simp
  with before show ?thesis by auto
qed

end
